theory Spec2Isabelle
  imports Complex_Main "HOL-Library.AList"
begin

section \<open>The audio engine of \<open>piano-experimental/audio.js\<close>\<close>

text \<open>
  The engine keeps four JavaScript \<open>Map\<close>s keyed by slice index. A \<open>Map\<close> iterates
  in insertion order and \<open>set\<close> on a key that is present keeps the key's position, which
  is what an association list with \<open>AList.update\<close> and \<open>AList.delete\<close> does. The
  synthesizer is observed through the list of calls made on it, oldest first.

  A note name is \<open>C_MAJOR_SCALE[index % 7] + octave\<close>; the model keeps the two parts
  of the concatenation apart. For a negative index the remainder of JavaScript is
  negative (or \<open>-0\<close>, which reads element 0); the array read at a negative position
  gives \<open>undefined\<close>, and \<open>undefined + octave\<close> is the number \<open>NaN\<close>.
\<close>

datatype noteName = Note string int | NotANumber

datatype sound = Attack noteName | Release noteName

definition C_MAJOR_SCALE :: "string list" where
  "C_MAJOR_SCALE = [''C'', ''D'', ''E'', ''F'', ''G'', ''A'', ''B'']"

definition getNote :: "int \<Rightarrow> noteName" where
  "getNote index =
     (let noteInScale = (if 0 \<le> index then index mod 7 else - ((- index) mod 7));
          octave = 3 + index div 7
      in if 0 \<le> noteInScale then Note (C_MAJOR_SCALE ! nat noteInScale) octave else NotANumber)"

record pendingState =
  shouldCancel :: bool
  pendingNote :: noteName

text \<open>
  \<open>synth\<close> says whether \<open>this.synth\<close> has been created. \<open>timers\<close> and
  \<open>nextTimeoutId\<close> are the host's side of \<open>setTimeout\<close>/\<open>clearTimeout\<close>: the
  timeouts that are scheduled and not cleared, each with the index its callback
  captured, and the next fresh handle.
\<close>

record AudioEngine =
  synth :: bool
  pendingNotes :: "(int \<times> pendingState) list"
  activeNotes :: "(int \<times> noteName) list"
  lockedDrones :: "(int \<times> noteName) list"
  lockTimeouts :: "(int \<times> nat) list"
  timers :: "(nat \<times> int) list"
  nextTimeoutId :: nat
  sounds :: "sound list"

definition newAudioEngine :: AudioEngine where
  "newAudioEngine =
     \<lparr> synth = False, pendingNotes = [], activeNotes = [], lockedDrones = [],
       lockTimeouts = [], timers = [], nextTimeoutId = 0, sounds = [] \<rparr>"

definition has :: "('k \<times> 'v) list \<Rightarrow> 'k \<Rightarrow> bool" where
  "has m k = (map_of m k \<noteq> None)"

definition clearTimeout :: "nat \<Rightarrow> AudioEngine \<Rightarrow> AudioEngine" where
  "clearTimeout tid e = e\<lparr> timers := AList.delete tid (timers e) \<rparr>"

text \<open>
  \<open>init\<close> caches its promise; the first call runs \<open>_doInit\<close> up to its first
  \<open>await\<close>, which creates the synthesizer at once. Later calls change nothing.
\<close>

definition init :: "AudioEngine \<Rightarrow> AudioEngine" where
  "init e = e\<lparr> synth := True \<rparr>"

text \<open>
  \<open>playNote\<close> is asynchronous with one suspension point, \<open>await this.init()\<close>.
  \<open>playNote_begin\<close> is the part before it, run by the caller to completion;
  \<open>playNote_suspends\<close> says whether that part reached the \<open>await\<close> and so left a
  continuation behind; \<open>playNote_resume\<close> is the continuation. A continuation only
  exists after \<open>playNote_begin\<close> has created the synthesizer, so the attack in it
  cannot meet a missing synthesizer. A readiness wait that fails never resumes.
\<close>

definition playNote_suspends :: "int \<Rightarrow> AudioEngine \<Rightarrow> bool" where
  "playNote_suspends index e =
     (\<not> has (lockedDrones e) index \<and> \<not> has (activeNotes e) index)"

definition playNote_begin :: "int \<Rightarrow> AudioEngine \<Rightarrow> AudioEngine" where
  "playNote_begin index e =
     (if has (lockedDrones e) index then e
      else if has (activeNotes e) index then e
      else init (e\<lparr> pendingNotes :=
             AList.update index \<lparr> shouldCancel = False, pendingNote = getNote index \<rparr>
               (pendingNotes e) \<rparr>))"

definition playNote_resume :: "int \<Rightarrow> AudioEngine \<Rightarrow> AudioEngine" where
  "playNote_resume index e =
     (case map_of (pendingNotes e) index of
        None \<Rightarrow> e\<lparr> pendingNotes := AList.delete index (pendingNotes e) \<rparr>
      | Some pendingSt \<Rightarrow>
          if shouldCancel pendingSt
          then e\<lparr> pendingNotes := AList.delete index (pendingNotes e) \<rparr>
          else
            (let timeoutId = nextTimeoutId e in
             e\<lparr> sounds := sounds e @ [Attack (getNote index)],
                pendingNotes := AList.delete index (pendingNotes e),
                activeNotes := AList.update index (getNote index) (activeNotes e),
                timers := AList.update timeoutId index (timers e),
                nextTimeoutId := Suc timeoutId,
                lockTimeouts := AList.update index timeoutId (lockTimeouts e) \<rparr>))"

definition clearLockTimeout :: "int \<Rightarrow> AudioEngine \<Rightarrow> AudioEngine" where
  "clearLockTimeout index e =
     (case map_of (lockTimeouts e) index of
        None \<Rightarrow> e
      | Some tid \<Rightarrow> (clearTimeout tid e)\<lparr> lockTimeouts := AList.delete index (lockTimeouts e) \<rparr>)"

definition triggerRelease :: "noteName \<Rightarrow> AudioEngine \<Rightarrow> AudioEngine" where
  "triggerRelease n e = (if synth e then e\<lparr> sounds := sounds e @ [Release n] \<rparr> else e)"

definition stopNote :: "int \<Rightarrow> bool \<Rightarrow> AudioEngine \<Rightarrow> AudioEngine" where
  "stopNote index force e =
     (if has (lockedDrones e) index \<and> \<not> force then e
      else
        (case map_of (activeNotes e) index of
           Some n \<Rightarrow>
             clearLockTimeout index
               ((triggerRelease n e)\<lparr> activeNotes := AList.delete index (activeNotes e) \<rparr>)
         | None \<Rightarrow>
             (case map_of (pendingNotes e) index of
                Some pendingSt \<Rightarrow>
                  e\<lparr> pendingNotes :=
                       AList.update index (pendingSt\<lparr> shouldCancel := True \<rparr>) (pendingNotes e) \<rparr>
              | None \<Rightarrow> e)))"

definition lockDrone :: "int \<Rightarrow> AudioEngine \<Rightarrow> AudioEngine" where
  "lockDrone index e =
     (case map_of (activeNotes e) index of
        Some n \<Rightarrow>
          clearLockTimeout index (e\<lparr> lockedDrones := AList.update index n (lockedDrones e) \<rparr>)
      | None \<Rightarrow> e)"

definition unlockDrone :: "int \<Rightarrow> AudioEngine \<Rightarrow> AudioEngine" where
  "unlockDrone index e =
     (case map_of (lockedDrones e) index of
        Some n \<Rightarrow>
          (let e1 = e\<lparr> lockedDrones := AList.delete index (lockedDrones e) \<rparr>;
               e2 = triggerRelease n e1
           in e2\<lparr> activeNotes := AList.delete index (activeNotes e2) \<rparr>)
      | None \<Rightarrow> e)"

definition isLocked :: "AudioEngine \<Rightarrow> int \<Rightarrow> bool" where
  "isLocked e index = has (lockedDrones e) index"

definition releaseAll :: "(int \<times> noteName) list \<Rightarrow> AudioEngine \<Rightarrow> AudioEngine" where
  "releaseAll m e =
     (if synth e \<and> 0 < length m then e\<lparr> sounds := sounds e @ map (\<lambda>(i, n). Release n) m \<rparr>
      else e)"

definition stopAllNotes :: "AudioEngine \<Rightarrow> AudioEngine" where
  "stopAllNotes e =
     (let e1 = e\<lparr> pendingNotes := [] \<rparr>;
          e2 = (releaseAll (activeNotes e1) e1)\<lparr> activeNotes := [] \<rparr>;
          e3 = (releaseAll (lockedDrones e2) e2)\<lparr> lockedDrones := [] \<rparr>;
          e4 = fold (\<lambda>(i, tid). clearTimeout tid) (lockTimeouts e3) e3
      in e4\<lparr> lockTimeouts := [] \<rparr>)"

text \<open>
  The callback the auto-lock timeout runs when the host fires it. A timeout that was
  cleared, or has fired already, is not in the host's table and never runs.
\<close>

definition timerFire :: "nat \<Rightarrow> AudioEngine \<Rightarrow> AudioEngine" where
  "timerFire tid e =
     (case map_of (timers e) tid of
        None \<Rightarrow> e
      | Some index \<Rightarrow> lockDrone index (clearTimeout tid e))"

text \<open>
  One step of the single-threaded event loop as the engine sees it: a call of its
  interface, the resumption of an outstanding \<open>playNote\<close>, or a timeout firing.
\<close>

datatype event =
    Start int
  | Resume int
  | Stop int bool
  | Lock int
  | Unlock int
  | Fire nat
  | StopAll

fun step :: "event \<Rightarrow> AudioEngine \<Rightarrow> AudioEngine" where
  "step (Start i) e = playNote_begin i e"
| "step (Resume i) e = playNote_resume i e"
| "step (Stop i force) e = stopNote i force e"
| "step (Lock i) e = lockDrone i e"
| "step (Unlock i) e = unlockDrone i e"
| "step (Fire tid) e = timerFire tid e"
| "step StopAll e = stopAllNotes e"

definition run :: "event list \<Rightarrow> AudioEngine \<Rightarrow> AudioEngine" where
  "run evs e = fold step evs e"

definition keys :: "('k \<times> 'v) list \<Rightarrow> 'k set" where
  "keys m = fst ` set m"


subsection \<open>Invariants of the engine\<close>

text \<open>
  What holds of the tables in every state the engine reaches (proved below): a pending
  index is neither active nor locked; an index with a timeout handle is active and not
  locked; every scheduled timeout is the one its index's handle names; handles are
  older than the next fresh one; and the note stored under an index is the note of that
  index.
\<close>

definition engine_inv :: "AudioEngine \<Rightarrow> bool" where
  "engine_inv e \<longleftrightarrow>
     keys (pendingNotes e) \<inter> keys (activeNotes e) = {} \<and>
     keys (pendingNotes e) \<inter> keys (lockedDrones e) = {} \<and>
     keys (lockTimeouts e) \<subseteq> keys (activeNotes e) \<and>
     keys (lockTimeouts e) \<inter> keys (lockedDrones e) = {} \<and>
     distinct (map fst (lockTimeouts e)) \<and>
     (\<forall>(tid, i) \<in> set (timers e). (i, tid) \<in> set (lockTimeouts e)) \<and>
     (\<forall>(tid, i) \<in> set (timers e). tid < nextTimeoutId e) \<and>
     (\<forall>(i, tid) \<in> set (lockTimeouts e). tid < nextTimeoutId e) \<and>
     (\<forall>(i, n) \<in> set (activeNotes e). n = getNote i) \<and>
     (\<forall>(i, n) \<in> set (lockedDrones e). n = getNote i)"

text \<open>
  An index whose continuations, if any are outstanding, will do nothing: it is neither
  active nor locked, and its pending record, if it has one, is marked for cancellation.
\<close>

definition cancelled :: "int \<Rightarrow> AudioEngine \<Rightarrow> bool" where
  "cancelled i e =
     (\<not> has (activeNotes e) i \<and> \<not> has (lockedDrones e) i \<and>
      (case map_of (pendingNotes e) i of None \<Rightarrow> True | Some ps \<Rightarrow> shouldCancel ps))"


subsection \<open>The engine inside the single-file script\<close>

text \<open>
  The single-file script carries an \<open>AudioEngine\<close> of its own, with no pending table:
  its \<open>playNote\<close> awaits \<open>init\<close> first and checks the locked and active tables only
  when it resumes, its \<open>stopNote\<close> knows active notes only, and its \<open>stopAllNotes\<close>
  releases and clears the active and locked tables and the timeouts. \<open>lockDrone\<close>,
  \<open>unlockDrone\<close> and \<open>isLocked\<close> are those of the engine above, word for word. It is
  modelled on the same record, whose pending table it never touches.
\<close>

definition legacy_playNote_begin :: "int \<Rightarrow> AudioEngine \<Rightarrow> AudioEngine" where
  "legacy_playNote_begin index e = init e"

definition legacy_playNote_resume :: "int \<Rightarrow> AudioEngine \<Rightarrow> AudioEngine" where
  "legacy_playNote_resume index e =
     (if has (lockedDrones e) index then e
      else if \<not> has (activeNotes e) index
      then
        (let timeoutId = nextTimeoutId e in
         e\<lparr> sounds := sounds e @ [Attack (getNote index)],
            activeNotes := AList.update index (getNote index) (activeNotes e),
            timers := AList.update timeoutId index (timers e),
            nextTimeoutId := Suc timeoutId,
            lockTimeouts := AList.update index timeoutId (lockTimeouts e) \<rparr>)
      else e)"

definition legacy_stopNote :: "int \<Rightarrow> bool \<Rightarrow> AudioEngine \<Rightarrow> AudioEngine" where
  "legacy_stopNote index force e =
     (if has (lockedDrones e) index \<and> \<not> force then e
      else
        (case map_of (activeNotes e) index of
           Some n \<Rightarrow>
             clearLockTimeout index
               ((triggerRelease n e)\<lparr> activeNotes := AList.delete index (activeNotes e) \<rparr>)
         | None \<Rightarrow> e))"

definition legacy_stopAllNotes :: "AudioEngine \<Rightarrow> AudioEngine" where
  "legacy_stopAllNotes e =
     (let e2 = (releaseAll (activeNotes e) e)\<lparr> activeNotes := [] \<rparr>;
          e3 = (releaseAll (lockedDrones e2) e2)\<lparr> lockedDrones := [] \<rparr>;
          e4 = fold (\<lambda>(i, tid). clearTimeout tid) (lockTimeouts e3) e3
      in e4\<lparr> lockTimeouts := [] \<rparr>)"


section \<open>The geometry engine\<close>

text \<open>
  In this section the numbers of JavaScript are read as real numbers and its
  arithmetic as exact; the rounding of doubles is added to the hit-test in the next
  section. The signed zero and \<open>NaN\<close> are not modelled. \<open>Math.atan2\<close> is the polar
  angle in \<open>(-\<pi>, \<pi>]\<close>, given here by cases on the quadrant. The operator \<open>%\<close> is the
  remainder of the truncated division: its result has the sign of the dividend.
\<close>

type_synonym point = "real \<times> real"

definition atan2 :: "real \<Rightarrow> real \<Rightarrow> real" where
  "atan2 y x =
     (if 0 < x then arctan (y / x)
      else if x < 0 then (if 0 \<le> y then arctan (y / x) + pi else arctan (y / x) - pi)
      else if 0 < y then pi / 2
      else if y < 0 then - pi / 2
      else 0)"

definition jsRem :: "real \<Rightarrow> real \<Rightarrow> real" where
  "jsRem a b = a - b * of_int (if 0 \<le> a / b then \<lfloor>a / b\<rfloor> else \<lceil>a / b\<rceil>)"

definition DRAGGABLE_RING_RATIO :: real where
  "DRAGGABLE_RING_RATIO = 6 / 10"

definition getAngleFromPoint :: "real \<Rightarrow> real \<Rightarrow> point \<Rightarrow> real" where
  "getAngleFromPoint x y center =
     (let dx = x - fst center; dy = y - snd center
      in atan2 dy dx * 180 / pi)"

definition isInDraggableRing :: "real \<Rightarrow> real \<Rightarrow> point \<Rightarrow> real \<Rightarrow> bool" where
  "isInDraggableRing x y center innerRadius =
     (let draggableRingStart = innerRadius * DRAGGABLE_RING_RATIO;
          dx = x - fst center; dy = y - snd center;
          distance = sqrt (dx * dx + dy * dy)
      in draggableRingStart \<le> distance \<and> distance \<le> innerRadius)"

text \<open>
  \<open>getSliceIndexAtPoint\<close> reads the rotation from the state manager; here it is the
  first argument.
\<close>

definition getSliceIndexAtPoint :: "real \<Rightarrow> real \<Rightarrow> real \<Rightarrow> point \<Rightarrow> int \<Rightarrow> int" where
  "getSliceIndexAtPoint rotation x y center sliceCount =
     (let angle0 = getAngleFromPoint x y center;
          angle1 = jsRem (angle0 + 360) 360;
          angle2 = jsRem (angle1 - rotation + 360) 360;
          anglePerSlice = 360 / of_int sliceCount
      in \<lfloor>angle2 / anglePerSlice\<rfloor>)"

text \<open>
  The hit-test as the specification words it, for comparison with the code: the angle
  is normalised to \<open>[0, 360)\<close>, the rotation is subtracted modulo 360 (the
  mathematical modulo, with a result in \<open>[0, 360)\<close>), and the result is divided by
  \<open>360 / sliceCount\<close> and floored.
\<close>

definition mod360 :: "real \<Rightarrow> real" where
  "mod360 t = t - 360 * of_int \<lfloor>t / 360\<rfloor>"


subsection \<open>The hit-test with the rounding of doubles\<close>

text \<open>
  A JavaScript number is an IEEE 754 double: 53 significant bits, and every arithmetic
  operation returns the double nearest to the exact result, ties going to the even
  significand. \<open>fl\<close> is that rounding for a result in the normal range (neither overflow
  nor a subnormal occurs in the hit-test): a value in \<open>[2^e, 2^(e+1))\<close> is rounded to a
  multiple of \<open>2^(e-52)\<close>. The remainder \<open>%\<close> and \<open>Math.floor\<close> are exact.
  \<open>Math.atan2\<close> and \<open>Math.PI\<close> are taken as the doubles nearest to the exact values.
  \<open>getSliceIndexAtPoint_double\<close> is \<open>getSliceIndexAtPoint\<close> with the rounding of each
  operation written out, for arguments that are doubles.
\<close>

definition roundEven :: "real \<Rightarrow> int" where
  "roundEven y =
     (let f = \<lfloor>y\<rfloor>
      in if y - of_int f < 1 / 2 then f
         else if 1 / 2 < y - of_int f then f + 1
         else if even f then f else f + 1)"

definition fl :: "real \<Rightarrow> real" where
  "fl x =
     (if x = 0 then 0
      else
        (let ulp = 2 powr of_int (\<lfloor>log 2 \<bar>x\<bar>\<rfloor> - 52)
         in of_int (roundEven (x / ulp)) * ulp))"

definition getSliceIndexAtPoint_double :: "real \<Rightarrow> real \<Rightarrow> real \<Rightarrow> point \<Rightarrow> int \<Rightarrow> int" where
  "getSliceIndexAtPoint_double rotation x y center sliceCount =
     (let dx = fl (x - fst center); dy = fl (y - snd center);
          angle0 = fl (fl (fl (atan2 dy dx) * 180) / fl pi);
          angle1 = jsRem (fl (angle0 + 360)) 360;
          angle2 = jsRem (fl (fl (angle1 - rotation) + 360)) 360;
          anglePerSlice = fl (360 / of_int sliceCount)
      in \<lfloor>fl (angle2 / anglePerSlice)\<rfloor>)"


section \<open>The interaction manager\<close>

text \<open>
  The interaction manager is the one of the single-file script; it drives an audio
  engine through \<open>playNote\<close>, \<open>stopNote\<close>, \<open>isLocked\<close> and \<open>unlockDrone\<close>. The script
  builds it with the script's own engine; the page modelled here gives it the engine of
  \<open>audio.js\<close>, which offers the same four methods. Its hit-test is read in exact
  arithmetic.

  A slice element is the \<open>path\<close> of class \<open>slice\<close> that some \<open>render()\<close> created: it is
  identified by the number of that render and its \<open>data-slice\<close> index, so that elements
  of an earlier render differ from those that replaced them. An event carries what the
  handlers read from it and from the document: its target, its touches (absent on a
  mouse event), its own \<open>clientX\<close> and \<open>clientY\<close> (absent on a touch event), and the
  element that \<open>document.elementFromPoint\<close> finds under the first pointer.
\<close>

type_synonym sliceElement = "nat \<times> int"

datatype element = Slice sliceElement | InnerRotationPlate | OtherElement

record touch =
  clientX :: real
  clientY :: real

record pointerEvent =
  target :: element
  touches :: "touch list option"
  mouseX :: "real option"
  mouseY :: "real option"
  elementFromPoint :: "element option"

text \<open>
  What a handler can end in besides returning: a \<open>TypeError\<close> (a property of
  \<open>undefined\<close> is read, or \<open>elementFromPoint\<close> gets a coordinate that is not finite),
  or a \<open>NaN\<close> stored as the rotation, which the model cannot follow further.
\<close>

datatype fault = TypeError | NaNRotation

record DragState =
  isDragging :: bool
  isRotating :: bool
  isPinching :: bool
  pressedSlices :: "sliceElement list"
  lastAngle :: real
  lastRotationSlice :: "int option"
  wasInGripperZone :: bool
  startedFromSlice :: bool
  lastTouchedSlice :: "sliceElement option"
  lastPinchDistance :: real

text \<open>
  The whole page: the audio engine with the \<open>playNote\<close> calls that are suspended at
  their \<open>await\<close> (first in, first to resume), the drag state, the two values of the
  state manager the gestures use, and of the renderer its set of locked slices, the
  slices it shows pressed, whether the gripper is shown active and how many times it
  has rendered. The frame of the SVG and the inner circle are fixed by the viewport.
  Every change of \<open>sliceCount\<close> is followed by \<open>render()\<close>, so the slice elements that
  exist are those of the last render with an index below \<open>sliceCount\<close>.
\<close>

record world =
  audio :: AudioEngine
  continuations :: "int list"
  dragState :: DragState
  sliceCount :: int
  rotation :: real
  lockedSlices :: "int set"
  pressedLook :: "int set"
  gripperActive :: bool
  renderCount :: nat
  svgOrigin :: point
  svgScale :: point
  circleCenter :: point
  innerRadius :: real

definition initialDragState :: DragState where
  "initialDragState =
     \<lparr> isDragging = False, isRotating = False, isPinching = False, pressedSlices = [],
       lastAngle = 0, lastRotationSlice = None, wasInGripperZone = False,
       startedFromSlice = False, lastTouchedSlice = None, lastPinchDistance = 0 \<rparr>"

definition setAdd :: "'a \<Rightarrow> 'a list \<Rightarrow> 'a list" where
  "setAdd x xs = (if x \<in> set xs then xs else xs @ [x])"

definition setDelete :: "'a \<Rightarrow> 'a list \<Rightarrow> 'a list" where
  "setDelete x xs = removeAll x xs"

subsection \<open>The renderer, as far as the gestures use it\<close>

definition getSliceElement :: "world \<Rightarrow> int \<Rightarrow> sliceElement option" where
  "getSliceElement w index =
     (if 0 \<le> index \<and> index < sliceCount w then Some (renderCount w, index) else None)"

definition pressSlice :: "int \<Rightarrow> world \<Rightarrow> world" where
  "pressSlice index w =
     (if getSliceElement w index \<noteq> None then w\<lparr> pressedLook := insert index (pressedLook w) \<rparr>
      else w)"

definition releaseSlice :: "int \<Rightarrow> world \<Rightarrow> world" where
  "releaseSlice index w =
     (if index \<in> lockedSlices w then w
      else if getSliceElement w index \<noteq> None
      then w\<lparr> pressedLook := pressedLook w - {index} \<rparr>
      else w)"

definition lockSlice :: "int \<Rightarrow> world \<Rightarrow> world" where
  "lockSlice index w = w\<lparr> lockedSlices := insert index (lockedSlices w) \<rparr>"

definition unlockSlice :: "int \<Rightarrow> world \<Rightarrow> world" where
  "unlockSlice index w = releaseSlice index (w\<lparr> lockedSlices := lockedSlices w - {index} \<rparr>)"

definition render :: "world \<Rightarrow> world" where
  "render w =
     w\<lparr> lockedSlices := {}, pressedLook := {}, gripperActive := False,
        renderCount := Suc (renderCount w) \<rparr>"

definition activateGripper :: "world \<Rightarrow> world" where
  "activateGripper w = w\<lparr> gripperActive := True \<rparr>"

definition deactivateGripper :: "world \<Rightarrow> world" where
  "deactivateGripper w = w\<lparr> gripperActive := False \<rparr>"

subsection \<open>Calls into the audio engine\<close>

text \<open>
  The interaction manager calls \<open>playNote\<close> without awaiting it: the call runs up to
  the \<open>await\<close> and, if it got there, its continuation is left to resume later. The
  callback it passes locks the slice in the renderer when the auto-lock timeout fires.
\<close>

definition playNote :: "int \<Rightarrow> world \<Rightarrow> world" where
  "playNote index w =
     w\<lparr> audio := playNote_begin index (audio w),
        continuations :=
          (if playNote_suspends index (audio w) then continuations w @ [index]
           else continuations w) \<rparr>"

definition resumeNext :: "world \<Rightarrow> world" where
  "resumeNext w =
     (case continuations w of
        [] \<Rightarrow> w
      | index # rest \<Rightarrow> w\<lparr> audio := playNote_resume index (audio w), continuations := rest \<rparr>)"

definition autoLockFires :: "nat \<Rightarrow> world \<Rightarrow> world" where
  "autoLockFires tid w =
     (case map_of (timers (audio w)) tid of
        None \<Rightarrow> w
      | Some index \<Rightarrow> lockSlice index (w\<lparr> audio := timerFire tid (audio w) \<rparr>))"

subsection \<open>Coordinates\<close>

text \<open>
  \<open>e.clientX || (e.touches && e.touches[0].clientX)\<close>: a mouse coordinate that is 0 is
  falsy, and with no touches the result is \<open>undefined\<close>, which becomes \<open>NaN\<close> in the
  arithmetic that follows; \<open>None\<close> stands for it. Every comparison with \<open>NaN\<close> is
  false, so a point with such a coordinate is not in the ring.
\<close>

definition firstTouch :: "pointerEvent \<Rightarrow> (touch \<Rightarrow> real) \<Rightarrow> fault + real option" where
  "firstTouch e coord =
     (case touches e of
        None \<Rightarrow> Inr None
      | Some [] \<Rightarrow> Inl TypeError
      | Some (t # ts) \<Rightarrow> Inr (Some (coord t)))"

definition primaryClientX :: "pointerEvent \<Rightarrow> fault + real option" where
  "primaryClientX e =
     (case mouseX e of
        Some v \<Rightarrow> if v \<noteq> 0 then Inr (Some v) else firstTouch e clientX
      | None \<Rightarrow> firstTouch e clientX)"

definition primaryClientY :: "pointerEvent \<Rightarrow> fault + real option" where
  "primaryClientY e =
     (case mouseY e of
        Some v \<Rightarrow> if v \<noteq> 0 then Inr (Some v) else firstTouch e clientY
      | None \<Rightarrow> firstTouch e clientY)"

definition getSVGCoordinates :: "world \<Rightarrow> real \<Rightarrow> real \<Rightarrow> point" where
  "getSVGCoordinates w cx cy =
     ((cx - fst (svgOrigin w)) * fst (svgScale w), (cy - snd (svgOrigin w)) * snd (svgScale w))"

definition touchInGripper :: "world \<Rightarrow> touch \<Rightarrow> bool" where
  "touchInGripper w t =
     (let p = getSVGCoordinates w (clientX t) (clientY t)
      in isInDraggableRing (fst p) (snd p) (circleCenter w) (innerRadius w))"

definition getTouchDistance :: "touch \<Rightarrow> touch \<Rightarrow> real" where
  "getTouchDistance touch1 touch2 =
     (let dx = clientX touch2 - clientX touch1; dy = clientY touch2 - clientY touch1
      in sqrt (dx * dx + dy * dy))"

subsection \<open>Slices pressed and released by a gesture\<close>

definition activateSlice :: "int \<Rightarrow> world \<Rightarrow> world" where
  "activateSlice index w =
     (if isLocked (audio w) index then w
      else
        (let w1 = pressSlice index w;
             w2 = (case getSliceElement w1 index of
                     Some el \<Rightarrow>
                       w1\<lparr> dragState := (dragState w1)
                            \<lparr> pressedSlices := setAdd el (pressedSlices (dragState w1)) \<rparr> \<rparr>
                   | None \<Rightarrow> w1)
         in playNote index w2))"

definition deactivateSlice :: "int \<Rightarrow> world \<Rightarrow> world" where
  "deactivateSlice index w =
     (let w1 = releaseSlice index w;
          w2 = (case getSliceElement w1 index of
                  Some el \<Rightarrow>
                    w1\<lparr> dragState := (dragState w1)
                         \<lparr> pressedSlices := setDelete el (pressedSlices (dragState w1)) \<rparr> \<rparr>
                | None \<Rightarrow> w1)
      in w2\<lparr> audio := stopNote index False (audio w2) \<rparr>)"

subsection \<open>Starting a gesture\<close>

definition startPinch :: "touch \<Rightarrow> touch \<Rightarrow> world \<Rightarrow> world" where
  "startPinch touch1 touch2 w =
     w\<lparr> dragState := (dragState w)
          \<lparr> isPinching := True, lastPinchDistance := getTouchDistance touch1 touch2 \<rparr> \<rparr>"

definition enterRotation :: "real \<Rightarrow> real \<Rightarrow> world \<Rightarrow> world" where
  "enterRotation x y w =
     activateGripper
       (w\<lparr> dragState := (dragState w)
            \<lparr> isRotating := True, wasInGripperZone := True,
              lastAngle := getAngleFromPoint x y (circleCenter w) \<rparr> \<rparr>)"

definition startRotation :: "real \<Rightarrow> real \<Rightarrow> world \<Rightarrow> world" where
  "startRotation x y w =
     activateGripper
       (w\<lparr> dragState := (dragState w)
            \<lparr> isRotating := True, wasInGripperZone := True, startedFromSlice := False,
              lastAngle := getAngleFromPoint x y (circleCenter w) \<rparr> \<rparr>)"

definition startSliceDrag :: "sliceElement \<Rightarrow> world \<Rightarrow> world" where
  "startSliceDrag sliceEl w =
     activateSlice (snd sliceEl)
       (w\<lparr> dragState := (dragState w)\<lparr> isDragging := True, startedFromSlice := True \<rparr> \<rparr>)"

definition inRing :: "world \<Rightarrow> real option \<Rightarrow> real option \<Rightarrow> bool" where
  "inRing w cx cy =
     (case (cx, cy) of
        (Some a, Some b) \<Rightarrow>
          (let p = getSVGCoordinates w a b
           in isInDraggableRing (fst p) (snd p) (circleCenter w) (innerRadius w))
      | _ \<Rightarrow> False)"

definition handleStart :: "pointerEvent \<Rightarrow> world \<Rightarrow> fault + world" where
  "handleStart e w =
     (case (case target e of
              Slice sliceEl \<Rightarrow> if isLocked (audio w) (snd sliceEl) then Some (snd sliceEl) else None
            | _ \<Rightarrow> None) of
        Some index \<Rightarrow> Inr (unlockSlice index (w\<lparr> audio := unlockDrone index (audio w) \<rparr>))
      | None \<Rightarrow>
          (case (case touches e of
                   Some (touch1 # touch2 # ts) \<Rightarrow>
                     if touchInGripper w touch1 \<and> touchInGripper w touch2
                     then Some (touch1, touch2) else None
                 | _ \<Rightarrow> None) of
             Some (touch1, touch2) \<Rightarrow> Inr (startPinch touch1 touch2 w)
           | None \<Rightarrow>
               (case primaryClientX e of
                  Inl f \<Rightarrow> Inl f
                | Inr cx \<Rightarrow>
                    (case primaryClientY e of
                       Inl f \<Rightarrow> Inl f
                     | Inr cy \<Rightarrow>
                         if target e = InnerRotationPlate \<and> inRing w cx cy
                         then
                           (let p = getSVGCoordinates w (the cx) (the cy)
                            in Inr (startRotation (fst p) (snd p) w))
                         else
                           (case target e of
                              Slice sliceEl \<Rightarrow> Inr (startSliceDrag sliceEl w)
                            | _ \<Rightarrow> Inr w)))))"

subsection \<open>Moving\<close>

text \<open>\<open>Math.round\<close> rounds halves up, as \<open>round\<close> does.\<close>

definition handlePinch :: "touch \<Rightarrow> touch \<Rightarrow> world \<Rightarrow> world" where
  "handlePinch touch1 touch2 w =
     (let currentDistance = getTouchDistance touch1 touch2;
          distanceDelta = currentDistance - lastPinchDistance (dragState w);
          sliceChange = round (distanceDelta / 20)
      in if sliceChange \<noteq> 0
         then
           (let currentSliceCount = sliceCount w;
                newSliceCount = max 6 (min 72 (currentSliceCount - sliceChange))
            in if newSliceCount \<noteq> currentSliceCount
               then
                 (let w1 = render (w\<lparr> sliceCount := newSliceCount \<rparr>)
                  in w1\<lparr> dragState := (dragState w1)\<lparr> lastPinchDistance := currentDistance \<rparr> \<rparr>)
               else w)
         else w)"

definition activateSliceAtPosition :: "real \<Rightarrow> real \<Rightarrow> world \<Rightarrow> world" where
  "activateSliceAtPosition x y w =
     (let sliceIndex = getSliceIndexAtPoint (rotation w) x y (circleCenter w) (sliceCount w);
          w1 = (case lastRotationSlice (dragState w) of
                  Some old \<Rightarrow> if old \<noteq> sliceIndex then deactivateSlice old w else w
                | None \<Rightarrow> w)
      in if Some sliceIndex \<noteq> lastRotationSlice (dragState w1)
         then
           (let w2 = activateSlice sliceIndex w1
            in w2\<lparr> dragState := (dragState w2)\<lparr> lastRotationSlice := Some sliceIndex \<rparr> \<rparr>)
         else w1)"

definition handleRotation :: "real \<Rightarrow> real \<Rightarrow> world \<Rightarrow> world" where
  "handleRotation x y w =
     (let currentAngle = getAngleFromPoint x y (circleCenter w);
          angleDiff0 = currentAngle - lastAngle (dragState w);
          angleDiff1 = (if 180 < angleDiff0 then angleDiff0 - 360 else angleDiff0);
          angleDiff = (if angleDiff1 < - 180 then angleDiff1 + 360 else angleDiff1);
          newRotation = jsRem (rotation w + angleDiff + 360) 360;
          w1 = w\<lparr> rotation := newRotation,
                 dragState := (dragState w)\<lparr> lastAngle := currentAngle \<rparr> \<rparr>
      in if startedFromSlice (dragState w1) then activateSliceAtPosition x y w1 else w1)"

definition handleSliceDrag :: "element option \<Rightarrow> world \<Rightarrow> world" where
  "handleSliceDrag el w =
     (let w1 = (case lastTouchedSlice (dragState w) of
                  Some lastEl \<Rightarrow>
                    if Some (Slice lastEl) \<noteq> el
                    then
                      (let w' = deactivateSlice (snd lastEl) w
                       in w'\<lparr> dragState := (dragState w')\<lparr> lastTouchedSlice := None \<rparr> \<rparr>)
                    else w
                | None \<Rightarrow> w)
      in case el of
           Some (Slice sliceEl) \<Rightarrow>
             if isLocked (audio w1) (snd sliceEl) then w1
             else if Some sliceEl \<noteq> lastTouchedSlice (dragState w1)
             then
               (let w2 = activateSlice (snd sliceEl) w1
                in w2\<lparr> dragState := (dragState w2)\<lparr> lastTouchedSlice := Some sliceEl \<rparr> \<rparr>)
             else w1
         | _ \<Rightarrow> w1)"

text \<open>
  The second block of \<open>handleMove\<close>: a pinch that has lost a touch turns into a
  rotation or a slice drag, by where the remaining touch is.
\<close>

definition pinchToSingleTouch :: "pointerEvent \<Rightarrow> touch \<Rightarrow> world \<Rightarrow> world" where
  "pinchToSingleTouch e t w =
     (let w1 = w\<lparr> dragState := (dragState w)\<lparr> isPinching := False, lastPinchDistance := 0 \<rparr> \<rparr>;
          p = getSVGCoordinates w1 (clientX t) (clientY t)
      in if isInDraggableRing (fst p) (snd p) (circleCenter w1) (innerRadius w1)
         then enterRotation (fst p) (snd p) w1
         else
           (case elementFromPoint e of
              Some (Slice sliceEl) \<Rightarrow>
                activateSlice (snd sliceEl)
                  (w1\<lparr> dragState := (dragState w1)
                       \<lparr> isDragging := True, startedFromSlice := True \<rparr> \<rparr>)
            | _ \<Rightarrow> w1\<lparr> dragState := (dragState w1)\<lparr> isDragging := True \<rparr> \<rparr>))"

text \<open>
  The rest of \<open>handleMove\<close>, once a drag or a rotation is in progress: entering the
  gripper ring releases the slice touched last and turns the gesture into a rotation,
  and the move is then handled as a rotation if \<open>isRotating\<close> is set and as a slice
  drag otherwise.
\<close>

definition releaseLastTouched :: "world \<Rightarrow> world" where
  "releaseLastTouched w =
     (case lastTouchedSlice (dragState w) of
        Some lastEl \<Rightarrow>
          (let w' = deactivateSlice (snd lastEl) w
           in w'\<lparr> dragState := (dragState w')\<lparr> lastTouchedSlice := None \<rparr> \<rparr>)
      | None \<Rightarrow> w)"

definition moveSinglePointer :: "pointerEvent \<Rightarrow> world \<Rightarrow> fault + world" where
  "moveSinglePointer e w =
     (case primaryClientX e of
        Inl f \<Rightarrow> Inl f
      | Inr cx \<Rightarrow>
          (case primaryClientY e of
             Inl f \<Rightarrow> Inl f
           | Inr cy \<Rightarrow>
               (case (cx, cy) of
                  (Some a, Some b) \<Rightarrow>
                    (let p = getSVGCoordinates w a b;
                         inGripperZone =
                           isInDraggableRing (fst p) (snd p) (circleCenter w) (innerRadius w);
                         w1 = (if inGripperZone \<and> \<not> wasInGripperZone (dragState w)
                               then enterRotation (fst p) (snd p) (releaseLastTouched w)
                               else w)
                     in if isRotating (dragState w1) then Inr (handleRotation (fst p) (snd p) w1)
                        else if isDragging (dragState w1)
                        then Inr (handleSliceDrag (elementFromPoint e) w1)
                        else Inr w1)
                | _ \<Rightarrow>
                    if isRotating (dragState w) then Inl NaNRotation
                    else if isDragging (dragState w) then Inl TypeError
                    else Inr w)))"

definition handleMove :: "pointerEvent \<Rightarrow> world \<Rightarrow> fault + world" where
  "handleMove e w =
     (case (if isPinching (dragState w)
            then (case touches e of Some (touch1 # touch2 # ts) \<Rightarrow> Some (touch1, touch2) | _ \<Rightarrow> None)
            else None) of
        Some (touch1, touch2) \<Rightarrow> Inr (handlePinch touch1 touch2 w)
      | None \<Rightarrow>
          (case (if isPinching (dragState w)
                 then (case touches e of
                         Some [] \<Rightarrow> Inl TypeError
                       | Some (t # ts) \<Rightarrow> Inr (pinchToSingleTouch e t w)
                       | None \<Rightarrow> Inr w)
                 else Inr w) of
             Inl f \<Rightarrow> Inl f
           | Inr w1 \<Rightarrow>
               if \<not> isDragging (dragState w1) \<and> \<not> isRotating (dragState w1) then Inr w1
               else moveSinglePointer e w1))"

subsection \<open>Releasing\<close>

definition releasePressed :: "int \<Rightarrow> world \<Rightarrow> world" where
  "releasePressed index w =
     (if \<not> isLocked (audio w) index
      then (let w1 = releaseSlice index w in w1\<lparr> audio := stopNote index False (audio w1) \<rparr>)
      else w)"

definition handleEnd :: "world \<Rightarrow> world" where
  "handleEnd w =
     (if isDragging (dragState w) \<or> isRotating (dragState w) \<or> isPinching (dragState w)
      then
        (let w1 = fold (\<lambda>sliceEl. releasePressed (snd sliceEl)) (pressedSlices (dragState w)) w;
             w2 = (case lastRotationSlice (dragState w1) of
                     Some index \<Rightarrow> releasePressed index w1
                   | None \<Rightarrow> w1);
             w3 = (if isRotating (dragState w2) then deactivateGripper w2 else w2)
         in w3\<lparr> dragState := (dragState w3)
              \<lparr> isDragging := False, isRotating := False, isPinching := False,
                wasInGripperZone := False, startedFromSlice := False,
                lastRotationSlice := None, lastTouchedSlice := None,
                lastPinchDistance := 0, pressedSlices := [] \<rparr> \<rparr>)
      else w)"

text \<open>
  The keyboard path: Enter or Space on a focused slice activates it at once and
  deactivates it from a timeout 350 ms later; it never touches the three flags.
\<close>

definition handleKeyboard :: "int \<Rightarrow> world \<Rightarrow> world" where
  "handleKeyboard index w = activateSlice index w"

definition keyboardTimeout :: "int \<Rightarrow> world \<Rightarrow> world" where
  "keyboardTimeout index w = deactivateSlice index w"

definition kindsActive :: "DragState \<Rightarrow> nat" where
  "kindsActive d =
     (if isDragging d then 1 else 0) + (if isRotating d then 1 else 0)
       + (if isPinching d then 1 else 0)"

definition gestureFlags :: "world \<Rightarrow> bool \<times> bool \<times> bool" where
  "gestureFlags w =
     (isDragging (dragState w), isRotating (dragState w), isPinching (dragState w))"

text \<open>
  The page as \<open>Application.init\<close> leaves it, with the initial slice count and rotation
  of \<open>INITIAL_STATE\<close>, for a viewport that puts the SVG at the given origin and scale
  and the inner circle at the given centre and radius.
\<close>

definition initialWorld :: "point \<Rightarrow> point \<Rightarrow> point \<Rightarrow> real \<Rightarrow> world" where
  "initialWorld origin scale center radius =
     \<lparr> audio = newAudioEngine, continuations = [], dragState = initialDragState,
       sliceCount = 32, rotation = 58, lockedSlices = {}, pressedLook = {},
       gripperActive = False, renderCount = 0, svgOrigin = origin, svgScale = scale,
       circleCenter = center, innerRadius = radius \<rparr>"

lemma has_keys: "has m k \<longleftrightarrow> k \<in> keys m"
  by (simp add: has_def keys_def map_of_eq_None_iff)

lemma keys_update [simp]: "keys (AList.update k v m) = insert k (keys m)"
  by (simp add: keys_def dom_update)

lemma keys_delete [simp]: "keys (AList.delete k m) = keys m - {k}"
  by (auto simp: keys_def AList.delete_eq)

lemma keys_Nil [simp]: "keys [] = {}"
  by (simp add: keys_def)

lemma set_delete: "set (AList.delete k m) = {p \<in> set m. fst p \<noteq> k}"
  by (auto simp: AList.delete_eq)

lemma set_update_fresh: "k \<notin> keys m \<Longrightarrow> set (AList.update k v m) = insert (k, v) (set m)"
  by (induction m) (auto simp: keys_def)

lemma set_update_subset: "set (AList.update k v m) \<subseteq> insert (k, v) (set m)"
  by (induction m) auto

lemma inv_new: "engine_inv newAudioEngine"
  by (simp add: engine_inv_def newAudioEngine_def)

lemma inv_begin: "engine_inv e \<Longrightarrow> engine_inv (playNote_begin i e)"
  by (auto simp: engine_inv_def playNote_begin_def init_def has_keys)

lemma map_of_keys: "map_of m k = Some v \<Longrightarrow> k \<in> keys m"
  by (auto simp: keys_def dest: map_of_SomeD intro: rev_image_eqI)

lemma inv_resume: "engine_inv e \<Longrightarrow> engine_inv (playNote_resume i e)"
proof (cases "map_of (pendingNotes e) i")
  case None
  assume "engine_inv e"
  with None show ?thesis
    by (auto simp: engine_inv_def playNote_resume_def)
next
  case (Some ps)
  assume inv: "engine_inv e"
  show ?thesis
  proof (cases "shouldCancel ps")
    case True
    with Some inv show ?thesis
      by (auto simp: engine_inv_def playNote_resume_def)
  next
    case False
    from Some have p: "i \<in> keys (pendingNotes e)" by (rule map_of_keys)
    with inv have a: "i \<notin> keys (activeNotes e)" and l: "i \<notin> keys (lockedDrones e)"
      by (auto simp: engine_inv_def)
    with inv have t: "i \<notin> keys (lockTimeouts e)"
      by (auto simp: engine_inv_def)
    from inv False Some a l t show ?thesis
      unfolding engine_inv_def playNote_resume_def
      by (auto simp: Let_def set_update_fresh distinct_update less_Suc_eq
               dest!: set_mp[OF set_update_subset])
  qed
qed


lemma inv_clearLockTimeout:
  assumes "keys (pendingNotes e) \<inter> keys (activeNotes e) = {}"
    and "keys (pendingNotes e) \<inter> keys (lockedDrones e) = {}"
    and "keys (lockTimeouts e) - {i} \<subseteq> keys (activeNotes e)"
    and "(keys (lockTimeouts e) - {i}) \<inter> keys (lockedDrones e) = {}"
    and "distinct (map fst (lockTimeouts e))"
    and "\<forall>(tid, j) \<in> set (timers e). (j, tid) \<in> set (lockTimeouts e)"
    and "\<forall>(tid, j) \<in> set (timers e). tid < nextTimeoutId e"
    and "\<forall>(j, tid) \<in> set (lockTimeouts e). tid < nextTimeoutId e"
    and "\<forall>(j, n) \<in> set (activeNotes e). n = getNote j"
    and "\<forall>(j, n) \<in> set (lockedDrones e). n = getNote j"
  shows "engine_inv (clearLockTimeout i e)"
proof (cases "map_of (lockTimeouts e) i")
  case None
  then have "i \<notin> keys (lockTimeouts e)"
    by (simp add: keys_def map_of_eq_None_iff)
  with None assms show ?thesis
    by (auto simp: engine_inv_def clearLockTimeout_def)
next
  case (Some tid)
  have uniq: "\<And>t. (i, t) \<in> set (lockTimeouts e) \<Longrightarrow> t = tid"
    using Some assms(5) by (metis map_of_is_SomeI option.inject)
  from Some assms show ?thesis
    unfolding engine_inv_def clearLockTimeout_def clearTimeout_def
    by (auto simp: set_delete distinct_delete dest: uniq)
qed

lemma inv_release_delete:
  "engine_inv e \<Longrightarrow>
   engine_inv (clearLockTimeout i ((triggerRelease n e)\<lparr> activeNotes := AList.delete i (activeNotes e) \<rparr>))"
  by (rule inv_clearLockTimeout) (auto simp: engine_inv_def triggerRelease_def set_delete)

lemma inv_cancel:
  "engine_inv e \<Longrightarrow> map_of (pendingNotes e) i = Some ps \<Longrightarrow>
   engine_inv (e\<lparr> pendingNotes := AList.update i ps' (pendingNotes e) \<rparr>)"
  by (auto simp: engine_inv_def dest: map_of_keys)

lemma inv_stop: "engine_inv e \<Longrightarrow> engine_inv (stopNote i force e)"
  by (simp add: stopNote_def inv_release_delete inv_cancel split: option.splits)

lemma inv_lock: "engine_inv e \<Longrightarrow> engine_inv (lockDrone i e)"
proof (cases "map_of (activeNotes e) i")
  case None
  assume "engine_inv e"
  with None show ?thesis by (simp add: lockDrone_def)
next
  case (Some n)
  assume inv: "engine_inv e"
  from Some have a: "i \<in> keys (activeNotes e)" by (rule map_of_keys)
  from Some have m: "(i, n) \<in> set (activeNotes e)" by (rule map_of_SomeD)
  have "engine_inv (clearLockTimeout i (e\<lparr> lockedDrones := AList.update i n (lockedDrones e) \<rparr>))"
    using inv a m
    by (intro inv_clearLockTimeout)
       (auto simp: engine_inv_def dest!: set_mp[OF set_update_subset])
  with Some show ?thesis by (simp add: lockDrone_def)
qed

lemma inv_unlock: "engine_inv e \<Longrightarrow> engine_inv (unlockDrone i e)"
proof (cases "map_of (lockedDrones e) i")
  case None
  assume "engine_inv e"
  with None show ?thesis by (simp add: unlockDrone_def)
next
  case (Some n)
  assume inv: "engine_inv e"
  from Some have l: "i \<in> keys (lockedDrones e)" by (rule map_of_keys)
  with inv have t: "i \<notin> keys (lockTimeouts e)" by (auto simp: engine_inv_def)
  from inv t Some show ?thesis
    unfolding engine_inv_def unlockDrone_def triggerRelease_def
    by (auto simp: Let_def set_delete)
qed

lemma inv_clearTimeout: "engine_inv e \<Longrightarrow> engine_inv (clearTimeout tid e)"
  by (auto simp: engine_inv_def clearTimeout_def set_delete)

lemma inv_fire: "engine_inv e \<Longrightarrow> engine_inv (timerFire tid e)"
  by (simp add: timerFire_def inv_lock inv_clearTimeout split: option.splits)

lemma fold_clearTimeout:
  "fold (\<lambda>(i, tid). clearTimeout tid) ts e =
     e\<lparr> timers := filter (\<lambda>(tid, i). tid \<notin> snd ` set ts) (timers e) \<rparr>"
proof (induction ts arbitrary: e)
  case Nil
  show ?case by simp
next
  case (Cons p ts)
  obtain i tid where p: "p = (i, tid)" by (cases p)
  have "fold (\<lambda>(i, tid). clearTimeout tid) (p # ts) e =
        fold (\<lambda>(i, tid). clearTimeout tid) ts (clearTimeout tid e)"
    by (simp add: p)
  also have "\<dots> = (clearTimeout tid e)\<lparr> timers :=
       filter (\<lambda>(t, i). t \<notin> snd ` set ts) (timers (clearTimeout tid e)) \<rparr>"
    by (rule Cons)
  also have "\<dots> = e\<lparr> timers :=
       filter (\<lambda>(t, i). t \<notin> snd ` set ts) (filter (\<lambda>(t, i). tid \<noteq> t) (timers e)) \<rparr>"
    by (simp add: clearTimeout_def AList.delete_eq)
  also have "filter (\<lambda>(t, i). t \<notin> snd ` set ts) (filter (\<lambda>(t, i). tid \<noteq> t) (timers e)) =
             filter (\<lambda>(t, i). t \<notin> snd ` set (p # ts)) (timers e)"
    unfolding filter_filter by (rule filter_cong) (auto simp: p)
  finally show ?case .
qed

lemma stopAllNotes_tables:
  "pendingNotes (stopAllNotes e) = [] \<and> activeNotes (stopAllNotes e) = [] \<and>
   lockedDrones (stopAllNotes e) = [] \<and> lockTimeouts (stopAllNotes e) = [] \<and>
   nextTimeoutId (stopAllNotes e) = nextTimeoutId e \<and>
   timers (stopAllNotes e) = filter (\<lambda>(tid, i). tid \<notin> snd ` set (lockTimeouts e)) (timers e)"
  by (simp add: stopAllNotes_def Let_def fold_clearTimeout releaseAll_def)

lemma tracked_timers_cleared:
  assumes "\<forall>(tid, i) \<in> set ts. (i, tid) \<in> set lt"
  shows "filter (\<lambda>(tid, i). tid \<notin> snd ` set lt) ts = []"
proof -
  have "tid \<in> snd ` set lt" if "(tid, i) \<in> set ts" for tid i
  proof -
    from assms that have "(i, tid) \<in> set lt" by blast
    then show ?thesis by (rule rev_image_eqI) simp
  qed
  then show ?thesis by (auto simp: filter_empty_conv)
qed

lemma inv_stopAll: "engine_inv e \<Longrightarrow> engine_inv (stopAllNotes e)"
  by (simp add: engine_inv_def stopAllNotes_tables tracked_timers_cleared)

lemma inv_step: "engine_inv e \<Longrightarrow> engine_inv (step ev e)"
  by (cases ev) (simp_all add: inv_begin inv_resume inv_stop inv_lock inv_unlock inv_fire inv_stopAll)

lemma inv_run: "engine_inv e \<Longrightarrow> engine_inv (run evs e)"
  unfolding run_def by (induction evs arbitrary: e) (simp_all add: inv_step)

lemma has_update [simp]: "has (AList.update k v m) j \<longleftrightarrow> j = k \<or> has m j"
  by (auto simp: has_keys)

lemma has_delete [simp]: "has (AList.delete k m) j \<longleftrightarrow> j \<noteq> k \<and> has m j"
  by (auto simp: has_keys)

lemma has_Nil [simp]: "\<not> has [] j"
  by (simp add: has_def)

lemma has_map_of: "has m k \<longleftrightarrow> (\<exists>v. map_of m k = Some v)"
  by (simp add: has_def)

lemma clearLockTimeout_fields [simp]:
  "pendingNotes (clearLockTimeout i e) = pendingNotes e"
  "activeNotes (clearLockTimeout i e) = activeNotes e"
  "lockedDrones (clearLockTimeout i e) = lockedDrones e"
  "sounds (clearLockTimeout i e) = sounds e"
  "synth (clearLockTimeout i e) = synth e"
  by (simp_all add: clearLockTimeout_def clearTimeout_def split: option.splits)

lemma triggerRelease_fields [simp]:
  "pendingNotes (triggerRelease n e) = pendingNotes e"
  "activeNotes (triggerRelease n e) = activeNotes e"
  "lockedDrones (triggerRelease n e) = lockedDrones e"
  "lockTimeouts (triggerRelease n e) = lockTimeouts e"
  "timers (triggerRelease n e) = timers e"
  "nextTimeoutId (triggerRelease n e) = nextTimeoutId e"
  by (simp_all add: triggerRelease_def)

lemma cancelled_begin: "cancelled i e \<Longrightarrow> j \<noteq> i \<Longrightarrow> cancelled i (playNote_begin j e)"
  by (simp add: cancelled_def playNote_begin_def init_def update_conv')

lemma cancelled_resume: "cancelled i e \<Longrightarrow> cancelled i (playNote_resume j e)"
  by (auto simp: cancelled_def playNote_resume_def Let_def update_conv' delete_conv' has_map_of
           split: option.splits)

lemma cancelled_stop: "cancelled i e \<Longrightarrow> cancelled i (stopNote j f e)"
  by (auto simp: cancelled_def stopNote_def update_conv' delete_conv' has_map_of split: option.splits)

lemma cancelled_lock: "cancelled i e \<Longrightarrow> cancelled i (lockDrone j e)"
  by (auto simp: cancelled_def lockDrone_def update_conv' delete_conv' has_map_of split: option.splits)

lemma cancelled_unlock: "cancelled i e \<Longrightarrow> cancelled i (unlockDrone j e)"
  by (auto simp: cancelled_def unlockDrone_def Let_def update_conv' delete_conv' has_map_of split: option.splits)

lemma cancelled_fire: "cancelled i e \<Longrightarrow> cancelled i (timerFire tid e)"
  by (auto simp: timerFire_def clearTimeout_def cancelled_def lockDrone_def update_conv' delete_conv' has_map_of
           split: option.splits)

lemma cancelled_stopAll: "cancelled i (stopAllNotes e)"
  by (simp add: cancelled_def stopAllNotes_tables)

lemma cancelled_step: "cancelled i e \<Longrightarrow> ev \<noteq> Start i \<Longrightarrow> cancelled i (step ev e)"
  by (cases ev)
     (auto simp: cancelled_begin cancelled_resume cancelled_stop cancelled_lock
                 cancelled_unlock cancelled_fire cancelled_stopAll)

lemma cancelled_run: "cancelled i e \<Longrightarrow> Start i \<notin> set evs \<Longrightarrow> cancelled i (run evs e)"
  unfolding run_def
  by (induction evs arbitrary: e) (auto simp: cancelled_step)

lemma cancelled_resume_noop:
  "cancelled i e \<Longrightarrow>
   playNote_resume i e = e\<lparr> pendingNotes := AList.delete i (pendingNotes e) \<rparr>"
  by (auto simp: cancelled_def playNote_resume_def split: option.splits)

lemma stop_pending_cancels:
  assumes "engine_inv e" and "has (pendingNotes e) i"
  shows "cancelled i (stopNote i False e)"
proof -
  from assms have a: "\<not> has (activeNotes e) i" and l: "\<not> has (lockedDrones e) i"
    by (auto simp: engine_inv_def has_keys)
  from a have "map_of (activeNotes e) i = None" by (simp add: has_def)
  with assms(2) a l show ?thesis
    by (auto simp: cancelled_def stopNote_def update_conv' has_map_of)
qed

subsection \<open>Evaluating the engine on concrete traces\<close>

lemmas engine_eval =
  run_def playNote_begin_def playNote_resume_def playNote_suspends_def stopNote_def lockDrone_def
  unlockDrone_def stopAllNotes_def timerFire_def clearLockTimeout_def clearTimeout_def
  triggerRelease_def releaseAll_def init_def newAudioEngine_def has_def keys_def Let_def

lemma inv_reachable: "engine_inv (run evs newAudioEngine)"
  by (rule inv_run) (rule inv_new)

subsection \<open>C1: stopping a pending start\<close>

text \<open>
  The engine of \<open>audio.js\<close> has no token per call: the continuation reads whatever
  record the pending table holds for its index when it resumes. After \<open>playNote(0)\<close>,
  \<open>stopNote(0)\<close> and a second \<open>playNote(0)\<close>, all before the readiness wait resolves,
  the table holds the fresh record of the second call, and the continuation of the
  first call, the one that was stopped while pending, finds it, attacks and makes the
  index active.
\<close>

lemma restart_revives_cancelled_start:
  "has (pendingNotes (run [Start 0] newAudioEngine)) 0 \<and>
   sounds (run [Start 0, Stop 0 False, Start 0] newAudioEngine) = [] \<and>
   sounds (playNote_resume 0 (run [Start 0, Stop 0 False, Start 0] newAudioEngine))
     = [Attack (getNote 0)] \<and>
   has (activeNotes (playNote_resume 0 (run [Start 0, Stop 0 False, Start 0] newAudioEngine))) 0"
  by (simp add: engine_eval)

text \<open>
  What the engine of \<open>audio.js\<close> does guarantee. In a state it can reach, let index
  \<open>i\<close> be pending and let \<open>stopNote(i)\<close> be called. Whatever happens next, as long as no
  new \<open>playNote(i)\<close> is issued before the continuation resumes, the index is not active
  when the continuation resumes, the continuation calls nothing on the synthesizer, and
  it leaves the index idle: not pending, not active, not locked.
\<close>

lemma stop_while_pending_cancels:
  assumes "has (pendingNotes (run evs0 newAudioEngine)) i"
    and "Start i \<notin> set evs"
  shows "let e' = run evs (stopNote i False (run evs0 newAudioEngine));
             r = playNote_resume i e'
         in \<not> has (activeNotes e') i \<and> sounds r = sounds e' \<and>
            \<not> has (pendingNotes r) i \<and> \<not> has (activeNotes r) i \<and> \<not> has (lockedDrones r) i"
proof -
  have "cancelled i (stopNote i False (run evs0 newAudioEngine))"
    using inv_reachable assms(1) by (rule stop_pending_cancels)
  then have c: "cancelled i (run evs (stopNote i False (run evs0 newAudioEngine)))"
    using assms(2) by (rule cancelled_run)
  then show ?thesis
    by (simp add: Let_def cancelled_resume_noop) (simp add: cancelled_def)
qed

lemma stop_while_pending_cancels_instance:
  "has (pendingNotes (run [Start 0] newAudioEngine)) 0 \<and>
   Start 0 \<notin> set [Start 1, Resume 1, Stop 1 False] \<and>
   sounds (playNote_resume 0
      (run [Start 1, Resume 1, Stop 1 False] (stopNote 0 False (run [Start 0] newAudioEngine))))
     = [Attack (getNote 1), Release (getNote 1)] \<and>
   \<not> has (activeNotes (playNote_resume 0
      (run [Start 1, Resume 1, Stop 1 False] (stopNote 0 False (run [Start 0] newAudioEngine))))) 0"
  using stop_while_pending_cancels [of "[Start 0]" 0 "[Start 1, Resume 1, Stop 1 False]"]
  by (simp add: engine_eval)

text \<open>
  Claim C1 fails on the engine of the single-file script. There nothing records a
  start that is waiting: after \<open>playNote(0)\<close> on a new engine, \<open>stopNote(0)\<close> called
  during the readiness wait finds index 0 not active and changes nothing, and the
  continuation then attacks the note, makes the index active and schedules its
  auto-lock. Nothing releases the note any more: when the timeout fires it is locked as
  a drone.
\<close>

theorem legacy_stop_does_not_cancel:
  "legacy_stopNote 0 False (legacy_playNote_begin 0 newAudioEngine)
     = legacy_playNote_begin 0 newAudioEngine \<and>
   sounds (legacy_playNote_resume 0
      (legacy_stopNote 0 False (legacy_playNote_begin 0 newAudioEngine)))
     = [Attack (getNote 0)] \<and>
   has (activeNotes (legacy_playNote_resume 0
      (legacy_stopNote 0 False (legacy_playNote_begin 0 newAudioEngine)))) 0 \<and>
   timers (legacy_playNote_resume 0
      (legacy_stopNote 0 False (legacy_playNote_begin 0 newAudioEngine))) = [(0, 0)] \<and>
   has (lockedDrones (timerFire 0 (legacy_playNote_resume 0
      (legacy_stopNote 0 False (legacy_playNote_begin 0 newAudioEngine))))) 0"
  by (simp add: legacy_stopNote_def legacy_playNote_begin_def legacy_playNote_resume_def
        engine_eval)

subsection \<open>C2: two overlapping starts\<close>

text \<open>
  Claim C2. From an idle index, two consecutive \<open>playNote(i)\<close> calls before the
  readiness wait resolves both reach the \<open>await\<close>, so two continuations resume. The
  first one to resume attacks once and makes the index active; the second finds no
  pending record and changes nothing. Over the whole sequence the synthesizer gets
  exactly one call, the attack of the note of \<open>i\<close>.
\<close>

theorem double_start_single_attack:
  assumes "\<not> has (pendingNotes e) i" and "\<not> has (activeNotes e) i"
    and "\<not> has (lockedDrones e) i"
  shows "let e1 = playNote_begin i e; e2 = playNote_begin i e1;
             r1 = playNote_resume i e2; r2 = playNote_resume i r1
         in playNote_suspends i e \<and> playNote_suspends i e1 \<and>
            sounds e2 = sounds e \<and>
            sounds r1 = sounds e @ [Attack (getNote i)] \<and>
            has (activeNotes r1) i \<and> \<not> has (activeNotes e2) i \<and>
            r2 = r1"
proof -
  let ?e1 = "playNote_begin i e"
  let ?e2 = "playNote_begin i ?e1"
  let ?r1 = "playNote_resume i ?e2"
  from assms have s1: "playNote_suspends i e"
    by (simp add: playNote_suspends_def)
  from assms have s2: "playNote_suspends i ?e1"
    by (simp add: playNote_suspends_def playNote_begin_def init_def)
  from assms have snd2: "sounds ?e2 = sounds e" and a2: "\<not> has (activeNotes ?e2) i"
    by (simp_all add: playNote_begin_def init_def)
  from assms have p2: "map_of (pendingNotes ?e2) i
      = Some \<lparr> shouldCancel = False, pendingNote = getNote i \<rparr>"
    by (simp add: playNote_begin_def init_def update_conv')
  from p2 snd2 have r1: "sounds ?r1 = sounds e @ [Attack (getNote i)]" "has (activeNotes ?r1) i"
    by (simp_all add: playNote_resume_def Let_def)
  from p2 have "\<not> has (pendingNotes ?r1) i"
    by (simp add: playNote_resume_def Let_def)
  then have "map_of (pendingNotes ?r1) i = None" "i \<notin> fst ` set (pendingNotes ?r1)"
    by (simp_all add: has_def map_of_eq_None_iff)
  then have "playNote_resume i ?r1 = ?r1"
    by (simp add: playNote_resume_def)
  with s1 s2 snd2 a2 r1 show ?thesis
    by (simp add: Let_def)
qed

theorem double_start_single_attack_witness:
  "\<not> has (pendingNotes newAudioEngine) 3 \<and> \<not> has (activeNotes newAudioEngine) 3 \<and>
   \<not> has (lockedDrones newAudioEngine) 3 \<and>
   sounds (run [Start 3, Start 3, Resume 3, Resume 3] newAudioEngine) = [Attack (getNote 3)] \<and>
   has (activeNotes (run [Start 3, Start 3, Resume 3, Resume 3] newAudioEngine)) 3"
  using double_start_single_attack [of newAudioEngine 3]
  by (simp add: engine_eval)

subsection \<open>C3: the three tables\<close>

text \<open>
  \<open>lockDrone\<close> copies the note into \<open>lockedDrones\<close> and leaves it in \<open>activeNotes\<close>
  (it is \<open>unlockDrone\<close> that deletes it from both), so after a start, its resumption
  and a lock the index is in both tables.
\<close>

theorem locked_index_stays_active:
  "has (activeNotes (run [Start 0, Resume 0, Lock 0] newAudioEngine)) 0 \<and>
   has (lockedDrones (run [Start 0, Resume 0, Lock 0] newAudioEngine)) 0 \<and>
   keys (activeNotes (run [Start 0, Resume 0, Lock 0] newAudioEngine)) \<inter>
   keys (lockedDrones (run [Start 0, Resume 0, Lock 0] newAudioEngine)) \<noteq> {}"
  by (simp add: engine_eval)

text \<open>
  Claim C3, as amended. After every completed operation (any sequence of starts,
  resumptions, stops with or without force, locks, unlocks, timeouts firing and
  \<open>stopAllNotes\<close> from the initial engine) the pending table is disjoint from the active
  table and from the locked table. The active and the locked table are not disjoint:
  locking an active index puts it in \<open>lockedDrones\<close> and keeps it in \<open>activeNotes\<close>.
\<close>

theorem pending_disjoint_from_active_and_locked:
  "let e = run evs newAudioEngine
   in keys (pendingNotes e) \<inter> keys (activeNotes e) = {} \<and>
      keys (pendingNotes e) \<inter> keys (lockedDrones e) = {} \<and>
      (has (activeNotes e) i \<longrightarrow>
         has (lockedDrones (lockDrone i e)) i \<and> has (activeNotes (lockDrone i e)) i)"
proof -
  have "engine_inv (run evs newAudioEngine)" by (rule inv_reachable)
  then have "keys (pendingNotes (run evs newAudioEngine)) \<inter> keys (activeNotes (run evs newAudioEngine)) = {}"
    and "keys (pendingNotes (run evs newAudioEngine)) \<inter> keys (lockedDrones (run evs newAudioEngine)) = {}"
    by (simp_all add: engine_inv_def)
  moreover have "has (lockedDrones (lockDrone i e)) i \<and> has (activeNotes (lockDrone i e)) i"
    if "has (activeNotes e) i" for e
    using that by (auto simp: lockDrone_def has_map_of update_conv')
  ultimately show ?thesis by (simp add: Let_def)
qed

theorem pending_disjoint_from_active_and_locked_witness:
  "keys (pendingNotes (run [Start 0, Resume 0, Start 1] newAudioEngine)) = {1} \<and>
   keys (activeNotes (run [Start 0, Resume 0, Start 1] newAudioEngine)) = {0} \<and>
   has (activeNotes (run [Start 0, Resume 0, Start 1] newAudioEngine)) 0 \<and>
   has (lockedDrones (lockDrone 0 (run [Start 0, Resume 0, Start 1] newAudioEngine))) 0 \<and>
   has (activeNotes (lockDrone 0 (run [Start 0, Resume 0, Start 1] newAudioEngine))) 0"
  using pending_disjoint_from_active_and_locked [of "[Start 0, Resume 0, Start 1]" 0]
  by (simp add: engine_eval)

subsection \<open>C5: \<open>stopAllNotes\<close>\<close>

text \<open>
  In the engine of \<open>audio.js\<close>, as for a single stop, a continuation that was
  outstanding when \<open>stopAllNotes\<close> ran is revived by a later \<open>playNote\<close> of its index:
  after \<open>playNote(0)\<close>, \<open>stopAllNotes()\<close> and a new \<open>playNote(0)\<close>, the continuation of
  the first call attacks.
\<close>

lemma restart_after_stopAll_revives_continuation:
  "pendingNotes (run [Start 0, StopAll] newAudioEngine) = [] \<and>
   sounds (run [Start 0, StopAll, Start 0] newAudioEngine) = [] \<and>
   sounds (playNote_resume 0 (run [Start 0, StopAll, Start 0] newAudioEngine))
     = [Attack (getNote 0)] \<and>
   has (activeNotes (playNote_resume 0 (run [Start 0, StopAll, Start 0] newAudioEngine))) 0"
  by (simp add: engine_eval)

text \<open>
  What the engine of \<open>audio.js\<close> does guarantee. In any state it can reach,
  \<open>stopAllNotes\<close> leaves the
  pending, active and locked tables and the table of timeout handles empty, and no
  timeout scheduled: every auto-lock timer is cancelled, so a timeout firing afterwards
  does nothing. A continuation of an index \<open>i\<close> that resumes afterwards, with no new
  \<open>playNote(i)\<close> in between, calls nothing on the synthesizer and leaves the index
  idle.
\<close>

lemma stopAll_resets_everything:
  assumes "Start i \<notin> set evs"
  shows "let s = stopAllNotes (run evs0 newAudioEngine);
             e' = run evs s; r = playNote_resume i e'
         in pendingNotes s = [] \<and> activeNotes s = [] \<and> lockedDrones s = [] \<and>
            lockTimeouts s = [] \<and> timers s = [] \<and> timerFire tid s = s \<and>
            playNote_resume i s = s \<and>
            sounds r = sounds e' \<and> \<not> has (pendingNotes r) i \<and>
            \<not> has (activeNotes r) i \<and> \<not> has (lockedDrones r) i"
proof -
  let ?s = "stopAllNotes (run evs0 newAudioEngine)"
  have "engine_inv (run evs0 newAudioEngine)" by (rule inv_reachable)
  then have t: "timers ?s = []"
    by (simp add: engine_inv_def stopAllNotes_tables tracked_timers_cleared)
  have tabs: "pendingNotes ?s = []" "activeNotes ?s = []" "lockedDrones ?s = []"
    "lockTimeouts ?s = []"
    by (simp_all add: stopAllNotes_tables)
  from t have f: "timerFire tid ?s = ?s"
    by (simp add: timerFire_def)
  from tabs have p: "playNote_resume i ?s = ?s"
    by (simp add: playNote_resume_def)
  have "cancelled i (run evs ?s)"
    using cancelled_stopAll assms by (rule cancelled_run)
  then have "sounds (playNote_resume i (run evs ?s)) = sounds (run evs ?s)"
    and "\<not> has (pendingNotes (playNote_resume i (run evs ?s))) i"
    and "\<not> has (activeNotes (playNote_resume i (run evs ?s))) i"
    and "\<not> has (lockedDrones (playNote_resume i (run evs ?s))) i"
    by (simp_all add: cancelled_resume_noop) (simp_all add: cancelled_def)
  with t tabs f p show ?thesis
    by (simp add: Let_def)
qed

lemma stopAll_resets_everything_instance:
  "Start 0 \<notin> set [Resume 0, Fire 0, Start 2] \<and>
   timers (run [Start 0, Start 1, Resume 1, Start 2, Resume 2, Lock 2] newAudioEngine) = [(0, 1)] \<and>
   timers (stopAllNotes
     (run [Start 0, Start 1, Resume 1, Start 2, Resume 2, Lock 2] newAudioEngine)) = [] \<and>
   sounds (stopAllNotes
     (run [Start 0, Start 1, Resume 1, Start 2, Resume 2, Lock 2] newAudioEngine))
     = [Attack (getNote 1), Attack (getNote 2), Release (getNote 1), Release (getNote 2),
        Release (getNote 2)] \<and>
   sounds (playNote_resume 0 (run [Resume 0, Fire 0, Start 2] (stopAllNotes
     (run [Start 0, Start 1, Resume 1, Start 2, Resume 2, Lock 2] newAudioEngine))))
     = [Attack (getNote 1), Attack (getNote 2), Release (getNote 1), Release (getNote 2),
        Release (getNote 2)]"
  using stopAll_resets_everything
    [of 0 "[Resume 0, Fire 0, Start 2]"
        "[Start 0, Start 1, Resume 1, Start 2, Resume 2, Lock 2]" 0]
  by (simp add: engine_eval)

text \<open>
  Claim C5 fails on the engine of the single-file script. Its \<open>stopAllNotes\<close> knows
  the active and locked tables and the timeouts only: called while the \<open>playNote(0)\<close>
  of a new engine is waiting, it changes nothing, and the continuation outstanding at
  the call then attacks the note, makes index 0 active and schedules its auto-lock,
  which locks the note as a drone when it fires.
\<close>

theorem legacy_stopAll_does_not_cancel:
  "legacy_stopAllNotes (legacy_playNote_begin 0 newAudioEngine)
     = legacy_playNote_begin 0 newAudioEngine \<and>
   sounds (legacy_playNote_resume 0
      (legacy_stopAllNotes (legacy_playNote_begin 0 newAudioEngine)))
     = [Attack (getNote 0)] \<and>
   has (activeNotes (legacy_playNote_resume 0
      (legacy_stopAllNotes (legacy_playNote_begin 0 newAudioEngine)))) 0 \<and>
   timers (legacy_playNote_resume 0
      (legacy_stopAllNotes (legacy_playNote_begin 0 newAudioEngine))) = [(0, 0)] \<and>
   has (lockedDrones (timerFire 0 (legacy_playNote_resume 0
      (legacy_stopAllNotes (legacy_playNote_begin 0 newAudioEngine))))) 0"
  by (simp add: legacy_stopAllNotes_def legacy_playNote_begin_def legacy_playNote_resume_def
        engine_eval)

subsection \<open>C6: operations on a locked index\<close>

text \<open>
  Claim C6. In any state the engine can reach, for an index in the locked table,
  \<open>playNote\<close> returns before its \<open>await\<close> and \<open>playNote\<close>, \<open>stopNote\<close> without force and
  \<open>lockDrone\<close> each leave the whole engine as it was: the four tables, the scheduled
  timeouts and the calls made on the synthesizer are unchanged, and the index is still
  locked.
\<close>

theorem locked_operations_are_noops:
  assumes "has (lockedDrones (run evs newAudioEngine)) i"
  shows "let e = run evs newAudioEngine
         in playNote_begin i e = e \<and> \<not> playNote_suspends i e \<and>
            stopNote i False e = e \<and> lockDrone i e = e \<and> isLocked e i"
proof -
  let ?e = "run evs newAudioEngine"
  have inv: "engine_inv ?e" by (rule inv_reachable)
  from assms have k: "i \<in> keys (lockedDrones ?e)" by (simp add: has_keys)
  from assms obtain n where n: "map_of (lockedDrones ?e) i = Some n"
    by (auto simp: has_map_of)
  then have "(i, n) \<in> set (lockedDrones ?e)" by (rule map_of_SomeD)
  with inv have gn: "n = getNote i" by (auto simp: engine_inv_def)
  from inv k have "i \<notin> keys (lockTimeouts ?e)" by (auto simp: engine_inv_def)
  then have nt: "map_of (lockTimeouts ?e) i = None"
    by (simp add: keys_def map_of_eq_None_iff)
  have "lockDrone i ?e = ?e"
  proof (cases "map_of (activeNotes ?e) i")
    case None
    then show ?thesis by (simp add: lockDrone_def)
  next
    case (Some m)
    then have "(i, m) \<in> set (activeNotes ?e)" by (rule map_of_SomeD)
    with inv have "m = getNote i" by (auto simp: engine_inv_def)
    with gn n have "AList.update i m (lockedDrones ?e) = lockedDrones ?e"
      by (simp add: update_triv)
    with Some nt show ?thesis by (simp add: lockDrone_def clearLockTimeout_def)
  qed
  with assms show ?thesis
    by (simp add: Let_def playNote_begin_def playNote_suspends_def stopNote_def isLocked_def)
qed

theorem locked_operations_are_noops_witness:
  "has (lockedDrones (run [Start 4, Resume 4, Fire 0] newAudioEngine)) 4 \<and>
   sounds (run [Start 4, Resume 4, Fire 0] newAudioEngine) = [Attack (getNote 4)] \<and>
   run [Start 4, Resume 4, Fire 0, Start 4, Stop 4 False, Lock 4] newAudioEngine
     = run [Start 4, Resume 4, Fire 0] newAudioEngine"
  using locked_operations_are_noops [of "[Start 4, Resume 4, Fire 0]" 4]
  by (simp add: engine_eval)

section \<open>Properties of the hit-test\<close>

subsection \<open>The hit-test in exact arithmetic\<close>

lemma arctan_bounds': "- pi / 2 < arctan t \<and> arctan t < pi / 2"
  using arctan_lbound [of t] arctan_ubound [of t] by simp

lemma atan2_range: "- pi < atan2 y x \<and> atan2 y x \<le> pi"
proof -
  have b: "- pi / 2 < arctan (y / x)" "arctan (y / x) < pi / 2"
    using arctan_bounds' [of "y / x"] by simp_all
  have pos: "0 < pi" by (rule pi_gt_zero)
  consider (right) "0 < x" | (upleft) "x < 0" "0 \<le> y" | (downleft) "x < 0" "y < 0"
    | (axis) "x = 0"
    by linarith
  then show ?thesis
  proof cases
    case right
    then have "atan2 y x = arctan (y / x)" by (simp add: atan2_def)
    with b pos show ?thesis by linarith
  next
    case upleft
    then have "y / x \<le> 0" by (simp add: divide_nonneg_neg)
    then have "arctan (y / x) \<le> 0" by (simp add: arctan_le_zero_iff)
    moreover from upleft have "atan2 y x = arctan (y / x) + pi" by (simp add: atan2_def)
    ultimately show ?thesis using b pos by linarith
  next
    case downleft
    then have "0 < y / x" by (simp add: divide_neg_neg)
    then have "0 < arctan (y / x)" by (simp add: zero_less_arctan_iff)
    moreover from downleft have "atan2 y x = arctan (y / x) - pi" by (simp add: atan2_def)
    ultimately show ?thesis using b pos by linarith
  next
    case axis
    then have "atan2 y x = (if 0 < y then pi / 2 else if y < 0 then - pi / 2 else 0)"
      by (simp add: atan2_def)
    with pos show ?thesis by (auto split: if_splits; linarith)
  qed
qed

lemma angle_range: "- 180 < getAngleFromPoint x y c \<and> getAngleFromPoint x y c \<le> 180"
proof -
  have pos: "0 < pi" by (rule pi_gt_zero)
  have r: "- pi < atan2 (y - snd c) (x - fst c)" "atan2 (y - snd c) (x - fst c) \<le> pi"
    using atan2_range by simp_all
  have "- 180 < atan2 (y - snd c) (x - fst c) * 180 / pi"
    using r(1) pos by (simp add: pos_less_divide_eq)
  moreover have "atan2 (y - snd c) (x - fst c) * 180 / pi \<le> 180"
    using r(2) pos by (simp add: pos_divide_le_eq)
  ultimately show ?thesis by (simp add: getAngleFromPoint_def Let_def)
qed

lemma jsRem_nonneg: "0 \<le> t \<Longrightarrow> jsRem t 360 = mod360 t"
  by (simp add: jsRem_def mod360_def)

lemma mod360_range: "0 \<le> mod360 t \<and> mod360 t < 360"
proof -
  have "of_int \<lfloor>t / 360\<rfloor> \<le> t / 360" "t / 360 < of_int \<lfloor>t / 360\<rfloor> + 1"
    by linarith+
  then show ?thesis by (simp add: mod360_def) linarith
qed


lemma mod360_shift: "mod360 (t + 360) = mod360 t"
proof -
  have "\<lfloor>(t + 360) / 360\<rfloor> = \<lfloor>t / 360\<rfloor> + 1"
    by (simp add: add_divide_distrib)
  then show ?thesis by (simp add: mod360_def algebra_simps)
qed

lemma normalised_angle:
  "jsRem (getAngleFromPoint x y c + 360) 360 = mod360 (getAngleFromPoint x y c)"
proof -
  have "0 \<le> getAngleFromPoint x y c + 360"
    using angle_range [of x y c] by linarith
  then show ?thesis by (simp add: jsRem_nonneg mod360_shift)
qed

lemma getSliceIndexAtPoint_unfold:
  "getSliceIndexAtPoint r x y c n =
     \<lfloor>jsRem (mod360 (getAngleFromPoint x y c) - r + 360) 360 / (360 / of_int n)\<rfloor>"
  by (simp add: getSliceIndexAtPoint_def Let_def normalised_angle)

lemma rotated_angle:
  assumes "r \<le> 360"
  shows "jsRem (mod360 a - r + 360) 360 = mod360 (mod360 a - r)"
proof -
  have "0 \<le> mod360 a - r + 360"
    using mod360_range [of a] assms by linarith
  then show ?thesis by (simp add: jsRem_nonneg mod360_shift)
qed

text \<open>
  Over the real numbers the hit-test stays in range: for every point and centre, every
  slice count \<open>n \<ge> 1\<close> and every rotation in \<open>[0, 360)\<close> the result lies in \<open>[0, n)\<close>.
\<close>

lemma hit_test_in_range_over_reals:
  assumes "1 \<le> n" and "0 \<le> r" and "r < 360"
  shows "0 \<le> getSliceIndexAtPoint r x y c n \<and> getSliceIndexAtPoint r x y c n < n"
proof -
  let ?a = "getAngleFromPoint x y c"
  let ?t = "mod360 (mod360 ?a - r)"
  have eq: "getSliceIndexAtPoint r x y c n = \<lfloor>?t / (360 / of_int n)\<rfloor>"
    using assms(3) by (simp add: getSliceIndexAtPoint_unfold rotated_angle)
  have rng: "0 \<le> ?t" "?t < 360"
    using mod360_range [of "mod360 ?a - r"] by simp_all
  have npos: "(0 :: real) < of_int n" using assms(1) by simp
  have q: "?t / (360 / of_int n) = ?t * of_int n / 360" by simp
  have lo: "0 \<le> ?t * of_int n / 360"
    using rng(1) npos by simp
  have "?t * of_int n < 360 * of_int n"
    using rng(2) npos by (simp add: mult_strict_right_mono)
  then have hi: "?t * of_int n / 360 < of_int n" by simp
  from lo hi show ?thesis
    unfolding eq q by (simp add: floor_less_iff)
qed

subsection \<open>Rounding to a double\<close>

text \<open>
  A value in the binade \<open>[2^k, 2^(k+1))\<close> is rounded to a multiple of \<open>2^(k-52)\<close>.
\<close>

lemma fl_binade:
  assumes "2 powr of_int k \<le> \<bar>x\<bar>" and "\<bar>x\<bar> < 2 powr of_int (k + 1)"
  shows "fl x = of_int (roundEven (x / 2 powr of_int (k - 52))) * 2 powr of_int (k - 52)"
proof -
  have "0 < (2::real) powr of_int k" by simp
  with assms(1) have pos: "0 < \<bar>x\<bar>" by linarith
  then have "x \<noteq> 0" by simp
  have "\<lfloor>log 2 \<bar>x\<bar>\<rfloor> = k"
    using assms pos by (simp add: floor_log_eq_powr_iff)
  with \<open>x \<noteq> 0\<close> show ?thesis by (simp add: fl_def Let_def)
qed

lemma fl_0: "fl 0 = 0"
  by (simp add: fl_def)

lemma fl_1: "fl 1 = 1"
  using fl_binade [of 0 1] by (simp add: roundEven_def powr_minus)

lemma fl_360: "fl 360 = 360"
  using fl_binade [of 8 360] by (simp add: roundEven_def powr_minus)

lemma fl_rotation: "fl (- (1 / 2 ^ 44)) = - (1 / 2 ^ 44)"
  using fl_binade [of "- 44" "- (1 / 2 ^ 44)"] by (simp add: roundEven_def powr_minus)

lemma fl_below_360: "fl (- (1 / 2 ^ 44) + 360) = 360 - 1 / 2 ^ 44"
  using fl_binade [of 8 "- (1 / 2 ^ 44) + 360"] by (simp add: roundEven_def powr_minus)

lemma fl_anglePerSlice: "fl (360 / 19) = 5333210085044008 / 2 ^ 48"
  using fl_binade [of 4 "360 / 19"] by (simp add: roundEven_def powr_minus)

lemma fl_quotient: "fl ((360 - 1 / 2 ^ 44) / (5333210085044008 / 2 ^ 48)) = 19"
  using fl_binade [of 4 "(360 - 1 / 2 ^ 44) / (5333210085044008 / 2 ^ 48)"]
  by (simp add: roundEven_def powr_minus)

lemma atan2_east: "atan2 0 1 = 0"
  by (simp add: atan2_def)




lemma fl_2: "fl 2 = 2"
  using fl_binade [of 1 2] by (simp add: roundEven_def powr_minus)









subsection \<open>The angle the code computes\<close>








subsection \<open>From the angle to the index\<close>




subsection \<open>C8: the formula of the hit-test\<close>







subsection \<open>C10: the range of the hit-test\<close>

text \<open>
  The code computes in doubles, and there the last division can round up to the slice
  count itself. The doubles involved at slice count 19 and rotation \<open>2^-44\<close>, for the
  point \<open>(1, 0)\<close> seen from the centre \<open>(0, 0)\<close>: the angle is 0; subtracting the
  rotation and adding 360 gives \<open>360 - 2^-44\<close>, the double just below 360, exactly;
  \<open>360 / 19\<close> rounds down to \<open>5333210085044008 / 2^48\<close>; and the quotient of the two,
  which is less than 19 by about \<open>1.5e-15\<close>, is nearer to 19 than to the double below
  19 and rounds to 19.
\<close>

text \<open>
  Claim C10 fails on the code as it computes: with slice count 19 and rotation
  \<open>2^-44\<close>, which lies in \<open>[0, 360)\<close>, the hit-test of the point \<open>(1, 0)\<close> against the
  centre \<open>(0, 0)\<close> returns 19, which is not a slice index below 19.
\<close>

theorem hit_test_out_of_range_in_doubles:
  "getSliceIndexAtPoint_double (1 / 2 ^ 44) 1 0 (0, 0) 19 = 19"
proof -
  have dx: "fl (1 - fst (0 :: real, 0 :: real)) = 1" and dy: "fl (0 - snd (0 :: real, 0 :: real)) = 0"
    by (simp_all add: fl_0 fl_1)
  have a0: "fl (fl (fl (atan2 0 1) * 180) / fl pi) = 0"
    by (simp add: atan2_east fl_0)
  have a1: "jsRem (fl (0 + 360)) 360 = 0"
    by (simp add: fl_360 jsRem_def)
  have r1: "fl (0 - 1 / 2 ^ 44) = - (1 / 2 ^ 44)"
    by (simp only: diff_0 fl_rotation)
  have r2: "fl (fl (0 - 1 / 2 ^ 44) + 360) = 360 - 1 / 2 ^ 44"
    by (simp only: r1 fl_below_360)
  have a2: "jsRem (fl (fl (0 - 1 / 2 ^ 44) + 360)) 360 = 360 - 1 / 2 ^ 44"
    unfolding r2 by (simp add: jsRem_def)
  have aps: "fl (360 / of_int 19) = 5333210085044008 / 2 ^ 48"
    using fl_anglePerSlice by simp
  have "getSliceIndexAtPoint_double (1 / 2 ^ 44) 1 0 (0, 0) 19
          = \<lfloor>fl ((360 - 1 / 2 ^ 44) / (5333210085044008 / 2 ^ 48))\<rfloor>"
    unfolding getSliceIndexAtPoint_double_def Let_def dx dy a0 a1 a2 aps ..
  also have "\<dots> = 19"
    unfolding fl_quotient by simp
  finally show ?thesis .
qed

section \<open>Properties of the gestures\<close>

subsection \<open>What the handlers do to the three flags\<close>

lemma flags_pressSlice [simp]: "dragState (pressSlice i w) = dragState w"
  by (simp add: pressSlice_def)

lemma flags_releaseSlice [simp]: "dragState (releaseSlice i w) = dragState w"
  by (simp add: releaseSlice_def)

lemma dragState_playNote [simp]: "dragState (playNote i w) = dragState w"
  by (simp add: playNote_def)

lemma dragState_releasePressed [simp]: "dragState (releasePressed i w) = dragState w"
  by (simp add: releasePressed_def Let_def)

lemma dragState_fold_releasePressed [simp]:
  "dragState (fold (\<lambda>sliceEl. releasePressed (snd sliceEl)) els w) = dragState w"
  by (induction els arbitrary: w) simp_all

lemma flags_activateSlice [simp]: "gestureFlags (activateSlice i w) = gestureFlags w"
  by (simp add: gestureFlags_def activateSlice_def Let_def getSliceElement_def pressSlice_def
           split: option.splits)

lemma flags_deactivateSlice [simp]: "gestureFlags (deactivateSlice i w) = gestureFlags w"
  by (simp add: gestureFlags_def deactivateSlice_def Let_def getSliceElement_def releaseSlice_def
           split: option.splits)

lemma flags_unlockSlice [simp]: "gestureFlags (unlockSlice i w) = gestureFlags w"
  by (simp add: gestureFlags_def unlockSlice_def)

lemma kindsActive_flags:
  "kindsActive (dragState w) =
     (case gestureFlags w of (d, r, p) \<Rightarrow>
        (if d then 1 else 0) + (if r then 1 else 0) + (if p then 1 else 0))"
  by (simp add: kindsActive_def gestureFlags_def)

lemma flags_startPinch: "gestureFlags (startPinch t1 t2 w) = (isDragging (dragState w), isRotating (dragState w), True)"
  by (simp add: gestureFlags_def startPinch_def)

lemma flags_startRotation: "gestureFlags (startRotation x y w) = (isDragging (dragState w), True, isPinching (dragState w))"
  by (simp add: gestureFlags_def startRotation_def activateGripper_def)

lemma flags_startSliceDrag: "gestureFlags (startSliceDrag el w) = (True, isRotating (dragState w), isPinching (dragState w))"
  by (simp add: startSliceDrag_def) (simp add: gestureFlags_def)

lemma handleStart_flags:
  assumes "handleStart e w = Inr w'" and "gestureFlags w = (False, False, False)"
  shows "gestureFlags w' \<in> {(False, False, False), (True, False, False), (False, True, False),
           (False, False, True)}"
proof -
  from assms(2) have f: "\<not> isDragging (dragState w)" "\<not> isRotating (dragState w)"
    "\<not> isPinching (dragState w)"
    by (simp_all add: gestureFlags_def)
  have u: "gestureFlags (w\<lparr> audio := a \<rparr>) = gestureFlags w" for a
    by (simp add: gestureFlags_def)
  from assms show ?thesis
    unfolding handleStart_def
    by (auto simp: flags_startPinch flags_startRotation flags_startSliceDrag f u Let_def
             split: option.splits sum.splits if_splits element.splits list.splits prod.splits)
qed

lemma handleEnd_flags: "gestureFlags (handleEnd w) = (False, False, False)"
  by (simp add: handleEnd_def Let_def gestureFlags_def deactivateGripper_def split: option.splits)

lemma flags_enterRotation:
  "gestureFlags (enterRotation x y w) = (isDragging (dragState w), True, isPinching (dragState w))"
  by (simp add: gestureFlags_def enterRotation_def activateGripper_def)

lemma flags_field_update [simp]:
  "gestureFlags (w\<lparr> dragState := (dragState w)\<lparr> lastTouchedSlice := v \<rparr> \<rparr>) = gestureFlags w"
  "gestureFlags (w\<lparr> dragState := (dragState w)\<lparr> lastRotationSlice := u \<rparr> \<rparr>) = gestureFlags w"
  "gestureFlags (w\<lparr> audio := a \<rparr>) = gestureFlags w"
  by (simp_all add: gestureFlags_def)

lemma flags_activateSliceAtPosition [simp]:
  "gestureFlags (activateSliceAtPosition x y w) = gestureFlags w"
  by (simp add: activateSliceAtPosition_def Let_def split: option.splits)

lemma flags_handleRotation [simp]: "gestureFlags (handleRotation x y w) = gestureFlags w"
proof -
  have "gestureFlags (w\<lparr> rotation := r, dragState := (dragState w)\<lparr> lastAngle := a \<rparr> \<rparr>)
          = gestureFlags w" for r a
    by (simp add: gestureFlags_def)
  then show ?thesis
    by (simp add: handleRotation_def Let_def)
qed

lemma flags_releaseLastTouched [simp]: "gestureFlags (releaseLastTouched w) = gestureFlags w"
  by (simp add: releaseLastTouched_def Let_def split: option.splits)

lemma move_into_ring:
  assumes "gestureFlags w = (True, False, False)" and "\<not> wasInGripperZone (dragState w)"
    and "primaryClientX e = Inr (Some a)" and "primaryClientY e = Inr (Some b)"
    and "inRing w (Some a) (Some b)"
  shows "handleMove e w =
           Inr (handleRotation (fst (getSVGCoordinates w a b)) (snd (getSVGCoordinates w a b))
                  (enterRotation (fst (getSVGCoordinates w a b)) (snd (getSVGCoordinates w a b))
                     (releaseLastTouched w)))"
    and "gestureFlags
           (handleRotation (fst (getSVGCoordinates w a b)) (snd (getSVGCoordinates w a b))
              (enterRotation (fst (getSVGCoordinates w a b)) (snd (getSVGCoordinates w a b))
                 (releaseLastTouched w))) = (True, True, False)"
proof -
  from assms(1) have f: "isDragging (dragState w)" "\<not> isRotating (dragState w)"
    "\<not> isPinching (dragState w)"
    by (simp_all add: gestureFlags_def)
  let ?p = "getSVGCoordinates w a b"
  let ?w' = "releaseLastTouched w"
  let ?w1 = "enterRotation (fst ?p) (snd ?p) ?w'"
  have "gestureFlags ?w' = gestureFlags w" by simp
  with assms(1) have "gestureFlags ?w' = (True, False, False)" by (simp only:)
  then have "isDragging (dragState ?w')" "\<not> isPinching (dragState ?w')"
    by (simp_all only: gestureFlags_def prod.inject simp_thms)
  then have fw1: "gestureFlags ?w1 = (True, True, False)"
    by (simp only: flags_enterRotation simp_thms)
  then have r1: "isRotating (dragState ?w1)" by (simp add: gestureFlags_def)
  from assms(5) have ring: "isInDraggableRing (fst ?p) (snd ?p) (circleCenter w) (innerRadius w)"
    by (simp add: inRing_def Let_def)
  have "moveSinglePointer e w = Inr (handleRotation (fst ?p) (snd ?p) ?w1)"
    using assms(2,3,4) ring r1 by (simp add: moveSinglePointer_def Let_def)
  with f show "handleMove e w = Inr (handleRotation (fst ?p) (snd ?p) ?w1)"
    by (simp add: handleMove_def)
  from fw1 show "gestureFlags (handleRotation (fst ?p) (snd ?p) ?w1) = (True, True, False)"
    by simp
qed

subsection \<open>Evaluating the handlers on concrete events\<close>

lemma sqrt_6400: "sqrt 6400 = 80"
  by (rule real_sqrt_unique) simp_all

lemma sqrt_25600: "sqrt 25600 = 160"
  by (rule real_sqrt_unique) simp_all

lemmas world_eval =
  initialWorld_def initialDragState_def activateSlice_def deactivateSlice_def pressSlice_def
  releaseSlice_def getSliceElement_def playNote_def setAdd_def setDelete_def startSliceDrag_def
  startPinch_def startRotation_def enterRotation_def activateGripper_def deactivateGripper_def
  isLocked_def primaryClientX_def primaryClientY_def firstTouch_def getSVGCoordinates_def
  inRing_def isInDraggableRing_def DRAGGABLE_RING_RATIO_def touchInGripper_def
  getTouchDistance_def render_def releasePressed_def lockSlice_def unlockSlice_def

subsection \<open>C4: the gesture kinds\<close>

text \<open>
  The session is three booleans, and \<open>handleMove\<close> sets \<open>isRotating\<close> when a drag
  enters the gripper ring without clearing \<open>isDragging\<close>. On a page whose inner circle
  has centre \<open>(1000, 1000)\<close> and radius 100, a mouse-down on slice 5 followed by a move
  to \<open>(920, 1000)\<close>, 80 from the centre and so inside the ring, leaves the session
  both dragging and rotating.
\<close>

theorem drag_into_ring_sets_two_kinds:
  "handleStart
     \<lparr> target = Slice (0, 5), touches = None, mouseX = Some 700, mouseY = Some 1000,
       elementFromPoint = Some (Slice (0, 5)) \<rparr>
     (initialWorld (0, 0) (1, 1) (1000, 1000) 100)
     = Inr (startSliceDrag (0, 5) (initialWorld (0, 0) (1, 1) (1000, 1000) 100)) \<and>
   kindsActive (dragState (initialWorld (0, 0) (1, 1) (1000, 1000) 100)) = 0 \<and>
   handleMove
     \<lparr> target = InnerRotationPlate, touches = None, mouseX = Some 920, mouseY = Some 1000,
       elementFromPoint = Some InnerRotationPlate \<rparr>
     (startSliceDrag (0, 5) (initialWorld (0, 0) (1, 1) (1000, 1000) 100))
     = Inr (handleRotation 920 1000 (enterRotation 920 1000
         (startSliceDrag (0, 5) (initialWorld (0, 0) (1, 1) (1000, 1000) 100)))) \<and>
   isDragging (dragState (handleRotation 920 1000 (enterRotation 920 1000
     (startSliceDrag (0, 5) (initialWorld (0, 0) (1, 1) (1000, 1000) 100))))) \<and>
   isRotating (dragState (handleRotation 920 1000 (enterRotation 920 1000
     (startSliceDrag (0, 5) (initialWorld (0, 0) (1, 1) (1000, 1000) 100))))) \<and>
   kindsActive (dragState (handleRotation 920 1000 (enterRotation 920 1000
     (startSliceDrag (0, 5) (initialWorld (0, 0) (1, 1) (1000, 1000) 100))))) = 2"
proof -
  let ?w0 = "initialWorld (0, 0) (1, 1) (1000, 1000) 100"
  let ?e2 = "\<lparr> target = InnerRotationPlate, touches = None, mouseX = Some 920,
               mouseY = Some 1000, elementFromPoint = Some InnerRotationPlate \<rparr>"
  let ?w1 = "startSliceDrag (0, 5) ?w0"
  have s: "handleStart
     \<lparr> target = Slice (0, 5), touches = None, mouseX = Some 700, mouseY = Some 1000,
       elementFromPoint = Some (Slice (0, 5)) \<rparr> ?w0 = Inr ?w1"
    by (simp add: handleStart_def initialWorld_def isLocked_def has_def newAudioEngine_def
          primaryClientX_def primaryClientY_def)
  have k0: "kindsActive (dragState ?w0) = 0"
    by (simp add: kindsActive_def initialWorld_def initialDragState_def)
  have f1: "gestureFlags ?w1 = (True, False, False)"
    unfolding flags_startSliceDrag by (simp add: initialWorld_def initialDragState_def)
  have z: "\<not> wasInGripperZone (dragState ?w1)"
    by (simp add: world_eval has_def newAudioEngine_def Let_def)
  have c: "circleCenter ?w1 = (1000, 1000)" "innerRadius ?w1 = 100" "svgOrigin ?w1 = (0, 0)"
    "svgScale ?w1 = (1, 1)" "lastTouchedSlice (dragState ?w1) = None"
    by (simp_all add: world_eval has_def newAudioEngine_def Let_def)
  have ring: "inRing ?w1 (Some 920) (Some 1000)"
    by (simp add: inRing_def getSVGCoordinates_def isInDraggableRing_def DRAGGABLE_RING_RATIO_def
          c Let_def sqrt_6400)
  have p: "getSVGCoordinates ?w1 920 1000 = (920, 1000)"
    by (simp add: getSVGCoordinates_def c)
  have l: "releaseLastTouched ?w1 = ?w1"
    by (simp add: releaseLastTouched_def c)
  have px: "primaryClientX ?e2 = Inr (Some 920)" "primaryClientY ?e2 = Inr (Some 1000)"
    by (simp_all add: primaryClientX_def primaryClientY_def)
  note m = move_into_ring [OF f1 z px ring, unfolded p l fst_conv snd_conv]
  from m(2) have d: "isDragging (dragState (handleRotation 920 1000 (enterRotation 920 1000 ?w1)))"
    and r: "isRotating (dragState (handleRotation 920 1000 (enterRotation 920 1000 ?w1)))"
    and n: "\<not> isPinching (dragState (handleRotation 920 1000 (enterRotation 920 1000 ?w1)))"
    by (simp_all only: gestureFlags_def prod.inject simp_thms)
  from d r n
  have k: "kindsActive (dragState (handleRotation 920 1000 (enterRotation 920 1000 ?w1))) = 2"
    by (simp add: kindsActive_def)
  from s k0 m(1) d r k show ?thesis
    by (simp only: simp_thms)
qed

text \<open>
  Claim C4, as amended. A pointer-down in a session with no gesture kind active leaves
  at most one kind active, and the global release leaves none active. In between the
  kinds are independent flags and can be active together: a move that takes a slice
  drag into the gripper ring ends with \<open>isDragging\<close> and \<open>isRotating\<close> both set (the
  move itself is handled as a rotation).
\<close>

theorem gesture_kinds_at_start_and_end:
  "(kindsActive (dragState w) = 0 \<and> handleStart e w = Inr w' \<longrightarrow>
      kindsActive (dragState w') \<le> 1) \<and>
   kindsActive (dragState (handleEnd v)) = 0 \<and>
   (isDragging (dragState u) \<and> \<not> isRotating (dragState u) \<and> \<not> isPinching (dragState u) \<and>
    \<not> wasInGripperZone (dragState u) \<and>
    primaryClientX m = Inr (Some a) \<and> primaryClientY m = Inr (Some b) \<and>
    inRing u (Some a) (Some b) \<longrightarrow>
      (\<exists>u'. handleMove m u = Inr u' \<and> isDragging (dragState u') \<and> isRotating (dragState u') \<and>
            \<not> isPinching (dragState u')))"
proof (intro conjI impI)
  assume "kindsActive (dragState w) = 0 \<and> handleStart e w = Inr w'"
  then have "gestureFlags w = (False, False, False)" and "handleStart e w = Inr w'"
    by (simp_all add: kindsActive_def gestureFlags_def split: if_splits)
  then have "gestureFlags w' \<in> {(False, False, False), (True, False, False),
      (False, True, False), (False, False, True)}"
    by (rule handleStart_flags [rotated])
  then show "kindsActive (dragState w') \<le> 1"
    by (auto simp: kindsActive_flags)
next
  show "kindsActive (dragState (handleEnd v)) = 0"
    by (simp add: kindsActive_flags handleEnd_flags)
next
  assume h: "isDragging (dragState u) \<and> \<not> isRotating (dragState u) \<and>
    \<not> isPinching (dragState u) \<and> \<not> wasInGripperZone (dragState u) \<and>
    primaryClientX m = Inr (Some a) \<and> primaryClientY m = Inr (Some b) \<and>
    inRing u (Some a) (Some b)"
  then have f: "gestureFlags u = (True, False, False)" by (simp add: gestureFlags_def)
  from h have z: "\<not> wasInGripperZone (dragState u)" by blast
  from h have px: "primaryClientX m = Inr (Some a)" by blast
  from h have py: "primaryClientY m = Inr (Some b)" by blast
  from h have ring: "inRing u (Some a) (Some b)" by blast
  from move_into_ring [OF f z px py ring]
  have "\<exists>u'. handleMove m u = Inr u' \<and> gestureFlags u' = (True, True, False)"
    by blast
  then show "\<exists>u'. handleMove m u = Inr u' \<and> isDragging (dragState u') \<and>
      isRotating (dragState u') \<and> \<not> isPinching (dragState u')"
    by (auto simp: gestureFlags_def)
qed

theorem gesture_kinds_at_start_and_end_witness:
  "kindsActive (dragState (initialWorld (0, 0) (1, 1) (1000, 1000) 100)) = 0 \<and>
   handleStart
     \<lparr> target = InnerRotationPlate, touches = None, mouseX = Some 920, mouseY = Some 1000,
       elementFromPoint = Some InnerRotationPlate \<rparr>
     (initialWorld (0, 0) (1, 1) (1000, 1000) 100)
     = Inr (startRotation 920 1000 (initialWorld (0, 0) (1, 1) (1000, 1000) 100)) \<and>
   kindsActive (dragState (startRotation 920 1000 (initialWorld (0, 0) (1, 1) (1000, 1000) 100))) = 1 \<and>
   kindsActive (dragState (handleEnd
      (startRotation 920 1000 (initialWorld (0, 0) (1, 1) (1000, 1000) 100)))) = 0 \<and>
   isDragging (dragState (startSliceDrag (0, 5) (initialWorld (0, 0) (1, 1) (1000, 1000) 100))) \<and>
   inRing (startSliceDrag (0, 5) (initialWorld (0, 0) (1, 1) (1000, 1000) 100))
     (Some 920) (Some 1000) \<and>
   (\<exists>u'. handleMove
      \<lparr> target = InnerRotationPlate, touches = None, mouseX = Some 920, mouseY = Some 1000,
        elementFromPoint = Some InnerRotationPlate \<rparr>
      (startSliceDrag (0, 5) (initialWorld (0, 0) (1, 1) (1000, 1000) 100)) = Inr u' \<and>
      isDragging (dragState u') \<and> isRotating (dragState u'))"
proof -
  let ?w0 = "initialWorld (0, 0) (1, 1) (1000, 1000) 100"
  let ?m = "\<lparr> target = InnerRotationPlate, touches = None, mouseX = Some 920,
               mouseY = Some 1000, elementFromPoint = Some InnerRotationPlate \<rparr>"
  let ?w1 = "startSliceDrag (0, 5) ?w0"
  have k0: "kindsActive (dragState ?w0) = 0"
    by (simp add: kindsActive_def initialWorld_def initialDragState_def)
  have ring0: "inRing ?w0 (Some 920) (Some 1000)"
    by (simp add: world_eval Let_def sqrt_6400)
  have s: "handleStart ?m ?w0 = Inr (startRotation 920 1000 ?w0)"
    using ring0
    by (simp add: handleStart_def primaryClientX_def primaryClientY_def)
       (simp add: initialWorld_def getSVGCoordinates_def)
  have d1: "isDragging (dragState ?w1)" "\<not> isRotating (dragState ?w1)"
    "\<not> isPinching (dragState ?w1)" "\<not> wasInGripperZone (dragState ?w1)"
    by (simp_all add: world_eval has_def newAudioEngine_def Let_def)
  have ring1: "inRing ?w1 (Some 920) (Some 1000)"
    by (simp add: world_eval has_def newAudioEngine_def Let_def sqrt_6400)
  have px: "primaryClientX ?m = Inr (Some 920)" "primaryClientY ?m = Inr (Some 1000)"
    by (simp_all add: primaryClientX_def primaryClientY_def)
  note T = gesture_kinds_at_start_and_end
         [of ?w0 ?m "startRotation 920 1000 ?w0" "startRotation 920 1000 ?w0" ?w1 ?m 920 1000]
  from T have b: "kindsActive (dragState (handleEnd (startRotation 920 1000 ?w0))) = 0"
    by blast
  from T d1 ring1 px
  have c: "\<exists>u'. handleMove ?m ?w1 = Inr u' \<and> isDragging (dragState u') \<and>
      isRotating (dragState u') \<and> \<not> isPinching (dragState u')"
    by blast
  have k1: "kindsActive (dragState (startRotation 920 1000 ?w0)) = 1"
    by (simp add: kindsActive_def startRotation_def activateGripper_def initialWorld_def
          initialDragState_def)
  from k0 s k1 b d1(1) ring1 c show ?thesis
    by blast
qed

subsection \<open>C9: the global release\<close>

lemma handleEnd_idle: "kindsActive (dragState w) = 0 \<Longrightarrow> handleEnd w = w"
  by (simp add: kindsActive_def handleEnd_def split: if_splits)

text \<open>
  \<open>handleEnd\<close> does nothing unless one of the three flags is set. The keyboard path
  presses a slice through \<open>activateSlice\<close>, which puts its element in the pressed set and
  sets no flag; a release arriving before the keyboard's own timeout finds no gesture
  in progress and leaves the pressed set as it is, not empty.
\<close>

theorem release_without_gesture_keeps_keyboard_press:
  "kindsActive (dragState (handleKeyboard 3 (initialWorld (0, 0) (1, 1) (1000, 1000) 100))) = 0 \<and>
   pressedSlices (dragState (handleKeyboard 3 (initialWorld (0, 0) (1, 1) (1000, 1000) 100)))
     = [(0, 3)] \<and>
   pressedSlices (dragState (handleEnd
      (handleKeyboard 3 (initialWorld (0, 0) (1, 1) (1000, 1000) 100)))) = [(0, 3)]"
  by (simp add: handleEnd_def handleKeyboard_def kindsActive_def world_eval has_def
        newAudioEngine_def Let_def)

text \<open>
  Claim C9, as amended. Releasing twice is releasing once, on the whole page: the drag
  state, the audio engine and the renderer. With no gesture in progress the release
  changes nothing, the pressed set and the notes included. After any release no gesture
  kind is active, and a release that ends a gesture in progress leaves the pressed set
  empty and the rotation and pinch bookkeeping reset (\<open>lastRotationSlice\<close>,
  \<open>lastTouchedSlice\<close>, \<open>lastPinchDistance\<close>, \<open>wasInGripperZone\<close>, \<open>startedFromSlice\<close>;
  \<open>lastAngle\<close> is left as it is and is set afresh whenever a rotation begins).
\<close>

theorem handleEnd_idempotent:
  "handleEnd (handleEnd w) = handleEnd w \<and>
   (kindsActive (dragState w) = 0 \<longrightarrow> handleEnd w = w) \<and>
   kindsActive (dragState (handleEnd w)) = 0 \<and>
   (0 < kindsActive (dragState w) \<longrightarrow>
      pressedSlices (dragState (handleEnd w)) = [] \<and>
      lastRotationSlice (dragState (handleEnd w)) = None \<and>
      lastTouchedSlice (dragState (handleEnd w)) = None \<and>
      lastPinchDistance (dragState (handleEnd w)) = 0 \<and>
      \<not> wasInGripperZone (dragState (handleEnd w)) \<and>
      \<not> startedFromSlice (dragState (handleEnd w)))"
proof -
  have z: "kindsActive (dragState (handleEnd w)) = 0"
    by (simp add: kindsActive_flags handleEnd_flags)
  then have i: "handleEnd (handleEnd w) = handleEnd w"
    by (rule handleEnd_idle)
  have c: "pressedSlices (dragState (handleEnd w)) = [] \<and>
      lastRotationSlice (dragState (handleEnd w)) = None \<and>
      lastTouchedSlice (dragState (handleEnd w)) = None \<and>
      lastPinchDistance (dragState (handleEnd w)) = 0 \<and>
      \<not> wasInGripperZone (dragState (handleEnd w)) \<and>
      \<not> startedFromSlice (dragState (handleEnd w))"
    if "0 < kindsActive (dragState w)"
  proof -
    from that have "isDragging (dragState w) \<or> isRotating (dragState w) \<or> isPinching (dragState w)"
      by (simp add: kindsActive_def split: if_splits)
    then show ?thesis
      by (simp add: handleEnd_def Let_def deactivateGripper_def split: option.splits)
  qed
  from z i c show ?thesis
    by (simp add: handleEnd_idle)
qed

theorem handleEnd_idempotent_witness:
  "kindsActive (dragState (initialWorld (0, 0) (1, 1) (1000, 1000) 100)) = 0 \<and>
   handleEnd (initialWorld (0, 0) (1, 1) (1000, 1000) 100)
     = initialWorld (0, 0) (1, 1) (1000, 1000) 100 \<and>
   0 < kindsActive (dragState (startSliceDrag (0, 5) (initialWorld (0, 0) (1, 1) (1000, 1000) 100))) \<and>
   pressedSlices (dragState (startSliceDrag (0, 5) (initialWorld (0, 0) (1, 1) (1000, 1000) 100)))
     = [(0, 5)] \<and>
   pressedSlices (dragState (handleEnd
      (startSliceDrag (0, 5) (initialWorld (0, 0) (1, 1) (1000, 1000) 100)))) = [] \<and>
   pressedLook (handleEnd
      (startSliceDrag (0, 5) (initialWorld (0, 0) (1, 1) (1000, 1000) 100))) = {} \<and>
   map_of (pendingNotes (audio (handleEnd
      (startSliceDrag (0, 5) (initialWorld (0, 0) (1, 1) (1000, 1000) 100))))) 5
     = Some \<lparr> shouldCancel = True, pendingNote = getNote 5 \<rparr> \<and>
   handleEnd (handleEnd (startSliceDrag (0, 5) (initialWorld (0, 0) (1, 1) (1000, 1000) 100)))
     = handleEnd (startSliceDrag (0, 5) (initialWorld (0, 0) (1, 1) (1000, 1000) 100))"
proof -
  let ?w0 = "initialWorld (0, 0) (1, 1) (1000, 1000) 100"
  let ?w1 = "startSliceDrag (0, 5) ?w0"
  have k0: "kindsActive (dragState ?w0) = 0"
    by (simp add: kindsActive_def initialWorld_def initialDragState_def)
  have k1: "0 < kindsActive (dragState ?w1)"
    by (simp add: kindsActive_def world_eval has_def newAudioEngine_def Let_def)
  have p1: "pressedSlices (dragState ?w1) = [(0, 5)]"
    by (simp add: world_eval has_def newAudioEngine_def Let_def)
  have l: "pressedLook (handleEnd ?w1) = {}"
    by (simp add: handleEnd_def world_eval engine_eval)
  have a: "map_of (pendingNotes (audio (handleEnd ?w1))) 5
     = Some \<lparr> shouldCancel = True, pendingNote = getNote 5 \<rparr>"
    by (simp add: handleEnd_def world_eval engine_eval)
  from handleEnd_idempotent [of ?w0] handleEnd_idempotent [of ?w1] k0 k1 p1 l a
  show ?thesis by blast
qed

subsection \<open>C7: the pinch\<close>

text \<open>
  Claim C7. With baseline separation \<open>b\<close> and current separation \<open>d\<close>, the change is
  \<open>round ((d - b) / 20)\<close>; when it is not zero the slice count becomes
  \<open>clamp (count - change, 6, 72)\<close>, and otherwise stays. The baseline becomes \<open>d\<close>
  exactly when the clamped count differs from the current one (for a count already in
  \<open>[6, 72]\<close> a zero change clamps to the count itself), and a count in \<open>[6, 72]\<close> stays in
  \<open>[6, 72]\<close>. From baseline 200 to separation 160 the change is \<open>-2\<close> and the new count
  is \<open>clamp (count + 2, 6, 72)\<close>. This is what a move does while pinching with two
  touches on the screen.
\<close>

theorem pinch_changes_slice_count:
  "let d = getTouchDistance touch1 touch2; b = lastPinchDistance (dragState w);
       sliceDelta = round ((d - b) / 20); c = sliceCount w;
       newCount = max 6 (min 72 (c - sliceDelta)); w' = handlePinch touch1 touch2 w
   in sliceCount w' = (if sliceDelta \<noteq> 0 then newCount else c) \<and>
      lastPinchDistance (dragState w') = (if sliceDelta \<noteq> 0 \<and> newCount \<noteq> c then d else b) \<and>
      (6 \<le> c \<and> c \<le> 72 \<longrightarrow>
         6 \<le> sliceCount w' \<and> sliceCount w' \<le> 72 \<and>
         lastPinchDistance (dragState w') = (if newCount \<noteq> c then d else b)) \<and>
      (b = 200 \<and> d = 160 \<longrightarrow>
         sliceDelta = - 2 \<and> sliceCount w' = max 6 (min 72 (c + 2))) \<and>
      (isPinching (dragState w) \<and> touches e = Some (touch1 # touch2 # others) \<longrightarrow>
         handleMove e w = Inr w')"
proof -
  have r: "round ((160 - 200) / 20 :: real) = - 2"
    by (simp add: round_def)
  have m: "handleMove e w = Inr (handlePinch touch1 touch2 w)"
    if "isPinching (dragState w)" and "touches e = Some (touch1 # touch2 # others)"
    using that by (simp add: handleMove_def)
  have "sliceCount (handlePinch touch1 touch2 w) =
          (if round ((getTouchDistance touch1 touch2 - lastPinchDistance (dragState w)) / 20) \<noteq> 0
           then max 6 (min 72 (sliceCount w
                  - round ((getTouchDistance touch1 touch2 - lastPinchDistance (dragState w)) / 20)))
           else sliceCount w)"
    by (simp add: handlePinch_def Let_def render_def)
  moreover have "lastPinchDistance (dragState (handlePinch touch1 touch2 w)) =
          (if round ((getTouchDistance touch1 touch2 - lastPinchDistance (dragState w)) / 20) \<noteq> 0
              \<and> max 6 (min 72 (sliceCount w
                  - round ((getTouchDistance touch1 touch2 - lastPinchDistance (dragState w)) / 20)))
                \<noteq> sliceCount w
           then getTouchDistance touch1 touch2 else lastPinchDistance (dragState w))"
    by (simp add: handlePinch_def Let_def render_def)
  ultimately show ?thesis
    unfolding Let_def using m by (auto simp: r)
qed

theorem pinch_changes_slice_count_witness:
  "(6 :: int) \<le> 32 \<and> (32 :: int) \<le> 72 \<and>
   getTouchDistance \<lparr> clientX = 0, clientY = 0 \<rparr> \<lparr> clientX = 160, clientY = 0 \<rparr> = 160 \<and>
   lastPinchDistance (dragState
     (startPinch \<lparr> clientX = 0, clientY = 0 \<rparr> \<lparr> clientX = 200, clientY = 0 \<rparr>
        (initialWorld (0, 0) (1, 1) (1000, 1000) 100))) = 200 \<and>
   isPinching (dragState
     (startPinch \<lparr> clientX = 0, clientY = 0 \<rparr> \<lparr> clientX = 200, clientY = 0 \<rparr>
        (initialWorld (0, 0) (1, 1) (1000, 1000) 100))) \<and>
   handleMove
     \<lparr> target = InnerRotationPlate,
       touches = Some [\<lparr> clientX = 0, clientY = 0 \<rparr>, \<lparr> clientX = 160, clientY = 0 \<rparr>],
       mouseX = None, mouseY = None, elementFromPoint = Some InnerRotationPlate \<rparr>
     (startPinch \<lparr> clientX = 0, clientY = 0 \<rparr> \<lparr> clientX = 200, clientY = 0 \<rparr>
        (initialWorld (0, 0) (1, 1) (1000, 1000) 100))
     = Inr (handlePinch \<lparr> clientX = 0, clientY = 0 \<rparr> \<lparr> clientX = 160, clientY = 0 \<rparr>
         (startPinch \<lparr> clientX = 0, clientY = 0 \<rparr> \<lparr> clientX = 200, clientY = 0 \<rparr>
            (initialWorld (0, 0) (1, 1) (1000, 1000) 100))) \<and>
   sliceCount (handlePinch \<lparr> clientX = 0, clientY = 0 \<rparr> \<lparr> clientX = 160, clientY = 0 \<rparr>
     (startPinch \<lparr> clientX = 0, clientY = 0 \<rparr> \<lparr> clientX = 200, clientY = 0 \<rparr>
        (initialWorld (0, 0) (1, 1) (1000, 1000) 100))) = 34 \<and>
   lastPinchDistance (dragState
     (handlePinch \<lparr> clientX = 0, clientY = 0 \<rparr> \<lparr> clientX = 160, clientY = 0 \<rparr>
       (startPinch \<lparr> clientX = 0, clientY = 0 \<rparr> \<lparr> clientX = 200, clientY = 0 \<rparr>
          (initialWorld (0, 0) (1, 1) (1000, 1000) 100)))) = 160"
proof -
  let ?w = "startPinch \<lparr> clientX = 0, clientY = 0 \<rparr> \<lparr> clientX = 200, clientY = 0 \<rparr>
        (initialWorld (0, 0) (1, 1) (1000, 1000) 100)"
  have sq: "sqrt 40000 = 200" by (rule real_sqrt_unique) simp_all
  have d: "getTouchDistance \<lparr> clientX = 0, clientY = 0 \<rparr> \<lparr> clientX = 160, clientY = 0 \<rparr> = 160"
    by (simp add: getTouchDistance_def sqrt_25600)
  have b: "lastPinchDistance (dragState ?w) = 200"
    by (simp add: startPinch_def getTouchDistance_def sq)
  have c: "sliceCount ?w = 32"
    by (simp add: startPinch_def initialWorld_def)
  have f: "isPinching (dragState ?w)"
    by (simp add: startPinch_def)
  from pinch_changes_slice_count
         [of "\<lparr> clientX = 0, clientY = 0 \<rparr>" "\<lparr> clientX = 160, clientY = 0 \<rparr>" ?w
             "\<lparr> target = InnerRotationPlate,
                touches = Some [\<lparr> clientX = 0, clientY = 0 \<rparr>, \<lparr> clientX = 160, clientY = 0 \<rparr>],
                mouseX = None, mouseY = None, elementFromPoint = Some InnerRotationPlate \<rparr>" "[]"]
       d b c f
  show ?thesis
    by (simp add: Let_def)
qed

end
